theory Spec2Isabelle
  imports Complex_Main "HOL-Library.Sublist"
begin

section \<open>Strings of the console\<close>

text \<open>
  A JavaScript string is modelled as a \<^typ>\<open>string\<close>, one \<^typ>\<open>char\<close> per code unit.
  Passwords are taken over the ASCII range, where \<open>.length\<close> is the length of the list
  and \<open>toLowerCase\<close> changes exactly the letters \<open>A\<close> to \<open>Z\<close>. The pictographs of
  the log templates are written as their UTF-8 bytes; nothing ever measures them.
\<close>

definition toLowerCase_char :: "char \<Rightarrow> char" where
  "toLowerCase_char c =
     (let n = (of_char c :: nat) in if 65 \<le> n \<and> n \<le> 90 then char_of (n + 32) else c)"

definition toLowerCase :: "string \<Rightarrow> string" where
  "toLowerCase s = map toLowerCase_char s"

text \<open>\<open>s.includes(t)\<close>: \<open>t\<close> occurs in \<open>s\<close> as a contiguous run.\<close>

fun includes_str :: "string \<Rightarrow> string \<Rightarrow> bool" where
  "includes_str [] t = (t = [])"
| "includes_str (c # s) t = (prefix t (c # s) \<or> includes_str s t)"

text \<open>\<open>s.repeat(n)\<close>.\<close>

definition repeat_str :: "string \<Rightarrow> nat \<Rightarrow> string" where
  "repeat_str s n = concat (replicate n s)"

text \<open>Template interpolation of a number: its decimal digits.\<close>

fun string_of_nat :: "nat \<Rightarrow> string" where
  "string_of_nat n =
     (if n < 10 then [char_of (48 + n)]
      else string_of_nat (n div 10) @ [char_of (48 + n mod 10)])"

declare string_of_nat.simps [simp del]

definition string_of_int :: "int \<Rightarrow> string" where
  "string_of_int i = (if i < 0 then CHR ''-'' # string_of_nat (nat (- i)) else string_of_nat (nat i))"

text \<open>\<open>(n * 6.5).toFixed(1)\<close> for a length \<open>n\<close>: the product is a multiple of one half.\<close>

definition toFixed1_times_6_5 :: "nat \<Rightarrow> string" where
  "toFixed1_times_6_5 n =
     string_of_nat ((13 * n) div 2) @ ''.'' @ (if even (13 * n) then ''0'' else ''5'')"

definition glyph_bullet :: string where
  "glyph_bullet = [CHR 0xE2, CHR 0x80, CHR 0xA2]"

definition glyph_warning :: string where
  "glyph_warning = [CHR 0xE2, CHR 0x9A, CHR 0xA0]"

definition glyph_cross :: string where
  "glyph_cross = [CHR 0xE2, CHR 0x9C, CHR 0x97]"

definition glyph_check :: string where
  "glyph_check = [CHR 0xE2, CHR 0x9C, CHR 0x93]"

definition glyph_stopwatch :: string where
  "glyph_stopwatch = [CHR 0xE2, CHR 0x8F, CHR 0xB1]"

definition glyph_shield :: string where
  "glyph_shield = [CHR 0xF0, CHR 0x9F, CHR 0x9B, CHR 0xA1]"

definition glyph_arrow :: string where
  "glyph_arrow = [CHR 0xE2, CHR 0x86, CHR 0x92]"

definition glyph_ruler :: string where
  "glyph_ruler = [CHR 0xF0, CHR 0x9F, CHR 0x93, CHR 0x8F]"

definition glyph_biceps :: string where
  "glyph_biceps = [CHR 0xF0, CHR 0x9F, CHR 0x92, CHR 0xAA]"

section \<open>Crack-time estimate\<close>

text \<open>
  \<^verbatim>\<open>
  function calculateCrackTime(pwd) {
    if (!pwd) return "Instant";
    const length = pwd.length;
    if (length < 6) return "< 1 second";
    if (length < 8) return "< 1 minute";
    if (length < 10) return "< 1 hour";
    if (length < 12) return "< 1 day";
    if (length < 14) return "< 1 year";
    return "> 100 years";
  }
  \<close>
\<close>

definition calculateCrackTime :: "string \<Rightarrow> string" where
  "calculateCrackTime pwd =
     (if pwd = [] then ''Instant''
      else let len = length pwd in
        if len < 6 then ''< 1 second''
        else if len < 8 then ''< 1 minute''
        else if len < 10 then ''< 1 hour''
        else if len < 12 then ''< 1 day''
        else if len < 14 then ''< 1 year''
        else ''> 100 years'')"

section \<open>Weak-pattern precheck\<close>

definition weakPasswordDatabase :: "string list" where
  "weakPasswordDatabase =
     [''password'', ''123456'', ''password123'', ''admin'', ''qwerty'', ''letmein'',
      ''welcome'', ''monkey'', ''dragon'', ''master'', ''superman'', ''batman'']"

text \<open>
  \<^verbatim>\<open>
  const isWeak = weakPasswordDatabase.some(weak =>
    pwd.toLowerCase().includes(weak.toLowerCase()));
  \<close>
\<close>

definition isWeak :: "string \<Rightarrow> bool" where
  "isWeak pwd =
     list_ex (\<lambda>weak. includes_str (toLowerCase pwd) (toLowerCase weak)) weakPasswordDatabase"

text \<open>
  The specification's wording, for comparison: some catalog entry is, up to the case of
  letters, a substring of the password. Two characters agree up to case when they are
  equal or one is a capital letter and the other the small letter at the same place of
  the alphabet; two strings agree up to case when they do so character by character.
\<close>

definition capital_letters :: string where
  "capital_letters = ''ABCDEFGHIJKLMNOPQRSTUVWXYZ''"

definition small_letters :: string where
  "small_letters = ''abcdefghijklmnopqrstuvwxyz''"

definition same_up_to_case :: "char \<Rightarrow> char \<Rightarrow> bool" where
  "same_up_to_case a b =
     (a = b \<or> (a, b) \<in> set (zip capital_letters small_letters)
            \<or> (b, a) \<in> set (zip capital_letters small_letters))"

definition substrings :: "string \<Rightarrow> string list" where
  "substrings p = concat (map prefixes (suffixes p))"

definition case_insensitive_substring :: "string \<Rightarrow> string \<Rightarrow> bool" where
  "case_insensitive_substring e p = list_ex (\<lambda>s. list_all2 same_up_to_case s e) (substrings p)"

definition spec_weak_pattern :: "string \<Rightarrow> bool" where
  "spec_weak_pattern p = list_ex (\<lambda>e. case_insensitive_substring e p) weakPasswordDatabase"

section \<open>Strength label\<close>

definition strengthLabels :: "string list" where
  "strengthLabels = [''CRITICAL'', ''WEAK'', ''FAIR'', ''STRONG'', ''PERFECT'']"

text \<open>\<open>xs[i]\<close> for an integer \<open>i\<close>: \<open>undefined\<close> outside the array.\<close>

definition index_at :: "'a list \<Rightarrow> int \<Rightarrow> 'a option" where
  "index_at xs i = (if 0 \<le> i \<and> i < int (length xs) then Some (xs ! nat i) else None)"

text \<open>\<open>strengthLabels[strength.score] || "CRITICAL"\<close>: the default replaces every falsy value.\<close>

definition currentStrength :: "int \<Rightarrow> string" where
  "currentStrength sc =
     (case index_at strengthLabels sc of
        None \<Rightarrow> ''CRITICAL''
      | Some l \<Rightarrow> if l = [] then ''CRITICAL'' else l)"

section \<open>Data model\<close>

text \<open>
  Two components share the logic: the dashboard of \<open>src/unnamed/part_000\<close> and the
  plain console of \<open>src/frontend/src/components/PasswordStrengthUI.jsx\<close>. Every
  operation takes the variant and differs only where the two files differ.
\<close>

datatype variant = Dashboard | Classic

record strength_result =
  score :: int
  feedback :: "string list"

record attack_type =
  atk_type :: string
  atk_origin :: string
  atk_target :: string
  atk_severity :: string

text \<open>
  An attack event spreads one catalog entry (\<open>None\<close> when the index misses the catalog and
  the spread of \<open>undefined\<close> adds no field) and adds four fields of its own.
\<close>

record attack_event =
  atk_archetype :: "attack_type option"
  atk_id :: nat
  atk_timestamp :: string
  atk_attempts :: int
  atk_blocked :: bool

record check_type =
  chk_password :: string
  chk_result :: string
  chk_reason :: string
  chk_location :: string

record live_check =
  chk_archetype :: "check_type option"
  chk_id :: nat
  chk_timestamp :: string

record global_stats =
  attacksToday :: int
  passwordsCompromised :: int
  activeThreats :: int
  weakPasswords :: int

text \<open>
  The body of a \<open>/api/check\<close> response after \<open>response.json()\<close>. The optional
  \<open>error\<close> and the \<open>suggestions\<close> array can be absent; \<open>score\<close> (an integer) and
  \<open>strength\<close> are taken as present, and so is \<open>password\<close> in the body of
  \<open>/api/generate\<close>.
\<close>

record check_data =
  resp_error :: "string option"
  resp_score :: int
  resp_strength :: string
  resp_suggestions :: "string list option"

record generate_data =
  gen_error :: "string option"
  gen_password :: string

text \<open>
  What the two awaits of a request give: \<open>Rejected m\<close> when \<open>fetch\<close> or
  \<open>response.json()\<close> throws an error with message \<open>m\<close> (a body that is not an object
  makes the first field access throw inside the same \<open>try\<close>), \<open>Json d\<close> when the body
  decodes to an object.
\<close>

datatype 'a fetched = Rejected string | Json 'a

text \<open>A timeout registered with \<open>setTimeout\<close>: its handle, its due time, the password its closure captured.\<close>

record timeout =
  handle :: nat
  due :: nat
  captured :: string

text \<open>
  The component's state cells, followed by what the runtime holds for it: the live
  timeouts, the next handle, the handle the debounce effect's cleanup closes over, every
  body posted to \<open>/api/check\<close>, the requests still awaiting a response, and the error an
  updater raised while rendering.
\<close>

record app =
  password :: string
  strength :: strength_result
  generated :: string
  showPassword :: bool
  terminalLines :: "string list"
  isAnalyzing :: bool
  attackData :: "attack_event list"
  globalStats :: global_stats
  liveChecks :: "live_check list"
  timers :: "timeout list"
  nextTimer :: nat
  cleanup :: "nat option"
  checkCalls :: "string list"
  checkPending :: "string list"
  generatePending :: nat
  fault :: "string option"

definition initial :: app where
  "initial =
     \<lparr>password = [], strength = \<lparr>score = 0, feedback = []\<rparr>, generated = [],
      showPassword = False, terminalLines = [], isAnalyzing = False, attackData = [],
      globalStats = \<lparr>attacksToday = 0, passwordsCompromised = 0, activeThreats = 0,
        weakPasswords = 0\<rparr>,
      liveChecks = [], timers = [], nextTimer = 0, cleanup = None, checkCalls = [],
      checkPending = [], generatePending = 0, fault = None\<rparr>"

text \<open>\<open>setTerminalLines(prev => [...prev, l1, ..., ln])\<close>.\<close>

definition append_lines :: "string list \<Rightarrow> app \<Rightarrow> app" where
  "append_lines ls s = s\<lparr>terminalLines := terminalLines s @ ls\<rparr>"

text \<open>A string in a condition: true unless empty; an absent field is false.\<close>

definition truthy :: "string option \<Rightarrow> bool" where
  "truthy x = (case x of None \<Rightarrow> False | Some e \<Rightarrow> e \<noteq> [])"

section \<open>Telemetry simulators\<close>

text \<open>
  \<open>Math.floor(Math.random() * n)\<close>, the draw \<open>r\<close> being the value \<open>Math.random()\<close>
  returned. Each tick receives its draws as a function from the position of the call to
  the value drawn.
\<close>

definition random_below :: "real \<Rightarrow> int \<Rightarrow> int" where
  "random_below r n = \<lfloor>r * of_int n\<rfloor>"

text \<open>
  \<^verbatim>\<open>
  setGlobalStats(prev => ({
    attacksToday: prev.attacksToday + Math.floor(Math.random() * 1000),
    passwordsCompromised: prev.passwordsCompromised + Math.floor(Math.random() * 50),
    activeThreats: Math.floor(Math.random() * 500) + 1000,
    weakPasswords: Math.floor(Math.random() * 1000000) + 5000000
  }));
  \<close>
\<close>

definition globalStats_tick :: "(nat \<Rightarrow> real) \<Rightarrow> global_stats \<Rightarrow> global_stats" where
  "globalStats_tick rnd prev =
     \<lparr>attacksToday = attacksToday prev + random_below (rnd 0) 1000,
      passwordsCompromised = passwordsCompromised prev + random_below (rnd 1) 50,
      activeThreats = random_below (rnd 2) 500 + 1000,
      weakPasswords = random_below (rnd 3) 1000000 + 5000000\<rparr>"

definition attackTypes :: "attack_type list" where
  "attackTypes =
     [\<lparr>atk_type = ''Brute Force'', atk_origin = ''Russia'', atk_target = ''Banking'', atk_severity = ''HIGH''\<rparr>,
      \<lparr>atk_type = ''Dictionary'', atk_origin = ''China'', atk_target = ''Healthcare'', atk_severity = ''MEDIUM''\<rparr>,
      \<lparr>atk_type = ''Rainbow Table'', atk_origin = ''Unknown'', atk_target = ''Government'', atk_severity = ''CRITICAL''\<rparr>,
      \<lparr>atk_type = ''Credential Stuffing'', atk_origin = ''Brazil'', atk_target = ''E-commerce'', atk_severity = ''HIGH''\<rparr>,
      \<lparr>atk_type = ''Hybrid Attack'', atk_origin = ''Iran'', atk_target = ''Education'', atk_severity = ''MEDIUM''\<rparr>,
      \<lparr>atk_type = ''Phishing'', atk_origin = ''Nigeria'', atk_target = ''Finance'', atk_severity = ''HIGH''\<rparr>,
      \<lparr>atk_type = ''SQL Injection'', atk_origin = ''Romania'', atk_target = ''Retail'', atk_severity = ''CRITICAL''\<rparr>,
      \<lparr>atk_type = ''Keylogger'', atk_origin = ''North Korea'', atk_target = ''Defense'', atk_severity = ''CRITICAL''\<rparr>]"

text \<open>The event of one attack-feed tick at time \<open>now\<close>, \<open>ts\<close> the locale's time string.\<close>

definition newAttack :: "(nat \<Rightarrow> real) \<Rightarrow> nat \<Rightarrow> string \<Rightarrow> attack_event" where
  "newAttack rnd now ts =
     \<lparr>atk_archetype = index_at attackTypes (random_below (rnd 0) (int (length attackTypes))),
      atk_id = now,
      atk_timestamp = ts,
      atk_attempts = random_below (rnd 1) 10000 + 1000,
      atk_blocked = (rnd 2 > 3 / 10)\<rparr>"

text \<open>\<open>setAttackData(prev => [newAttack, ...prev].slice(0, 10))\<close>.\<close>

definition attackData_push :: "attack_event \<Rightarrow> attack_event list \<Rightarrow> attack_event list" where
  "attackData_push e prev = take 10 (e # prev)"

definition chars :: string where
  "chars = ''ABCDEFGHIJKLMNOPQRSTUVWXYZabcdefghijklmnopqrstuvwxyz0123456789!@#$%^&*''"

text \<open>
  \<open>Array.from({length: 16}, () => chars[Math.floor(Math.random() * chars.length)]).join('')\<close>;
  \<open>join\<close> writes nothing for an \<open>undefined\<close> element.
\<close>

definition generateRandomPassword :: "(nat \<Rightarrow> real) \<Rightarrow> string" where
  "generateRandomPassword rnd =
     concat (map (\<lambda>i. case index_at chars (random_below (rnd i) (int (length chars))) of
                          None \<Rightarrow> [] | Some c \<Rightarrow> [c]) [0..<16])"

definition checkTypes :: "(nat \<Rightarrow> real) \<Rightarrow> check_type list" where
  "checkTypes rnd =
     [\<lparr>chk_password = ''P@ssw0rd!'', chk_result = ''WEAK'', chk_reason = ''Common pattern'', chk_location = ''USA''\<rparr>,
      \<lparr>chk_password = ''john2024'', chk_result = ''CRITICAL'', chk_reason = ''Personal info'', chk_location = ''UK''\<rparr>,
      \<lparr>chk_password = ''qwerty123'', chk_result = ''CRITICAL'', chk_reason = ''Keyboard pattern'', chk_location = ''India''\<rparr>,
      \<lparr>chk_password = ''iloveyou'', chk_result = ''WEAK'', chk_reason = ''Common phrase'', chk_location = ''Philippines''\<rparr>,
      \<lparr>chk_password = ''Tr0ub4dor&3'', chk_result = ''FAIR'', chk_reason = ''Predictable substitution'', chk_location = ''Canada''\<rparr>,
      \<lparr>chk_password = generateRandomPassword rnd, chk_result = ''PERFECT'', chk_reason = ''Strong entropy'', chk_location = ''Germany''\<rparr>]"

text \<open>The catalog is built first (sixteen draws), the index is the seventeenth draw.\<close>

definition newCheck :: "(nat \<Rightarrow> real) \<Rightarrow> nat \<Rightarrow> string \<Rightarrow> live_check" where
  "newCheck rnd now ts =
     \<lparr>chk_archetype =
        index_at (checkTypes rnd) (random_below (rnd 16) (int (length (checkTypes rnd)))),
      chk_id = now,
      chk_timestamp = ts\<rparr>"

text \<open>\<open>setLiveChecks(prev => [newCheck, ...prev].slice(0, 5))\<close>.\<close>

definition liveChecks_push :: "live_check \<Rightarrow> live_check list \<Rightarrow> live_check list" where
  "liveChecks_push e prev = take 5 (e # prev)"

section \<open>Analysis controller\<close>

text \<open>The lines the analysis writes, per variant.\<close>

definition line_analyzing :: "variant \<Rightarrow> string \<Rightarrow> string" where
  "line_analyzing v pwd =
     (case v of
        Dashboard \<Rightarrow>
          ''$ ANALYZING: '' @ (if pwd \<noteq> [] then repeat_str glyph_bullet (length pwd) else ''EMPTY'')
      | Classic \<Rightarrow>
          ''$ ANALYZING PASSWORD: '' @ (if pwd \<noteq> [] then ''****'' else ''EMPTY'') @ '' ''
            @ glyph_arrow @ '' CONNECTED TO BACKEND'')"

definition line_warning :: string where
  "line_warning = glyph_warning @ '' WARNING: Password found in breach database!''"

definition line_analysis_failed :: "variant \<Rightarrow> string \<Rightarrow> string" where
  "line_analysis_failed v e =
     (case v of
        Dashboard \<Rightarrow> glyph_cross @ '' ANALYSIS FAILED: '' @ e
      | Classic \<Rightarrow> ''$ ANALYSIS FAILED: '' @ e)"

definition line_connection_failed :: "variant \<Rightarrow> string \<Rightarrow> string" where
  "line_connection_failed v m =
     (case v of
        Dashboard \<Rightarrow> glyph_cross @ '' CONNECTION FAILED: '' @ m
      | Classic \<Rightarrow> ''$ CONNECTION FAILED: '' @ m)"

definition lines_complete :: "variant \<Rightarrow> string \<Rightarrow> check_data \<Rightarrow> string list \<Rightarrow> string list" where
  "lines_complete v pwd data sg =
     (case v of
        Dashboard \<Rightarrow>
          [glyph_check @ '' ANALYSIS COMPLETE: '' @ resp_strength data @ '' (''
             @ string_of_int (resp_score data) @ ''/4)'',
           glyph_stopwatch @ '' Crack Time: '' @ calculateCrackTime pwd,
           glyph_shield @ '' Protection Level: ''
             @ (if resp_score data \<ge> 3 then ''SECURE'' else ''VULNERABLE'')]
          @ map (\<lambda>s. glyph_arrow @ '' '' @ s) (take 3 sg)
      | Classic \<Rightarrow>
          [''$ ANALYSIS COMPLETE: '' @ resp_strength data @ '' (''
             @ string_of_int (resp_score data) @ ''/4)'',
           ''$ THREAT LEVEL: '' @ resp_strength data]
          @ map (\<lambda>s. ''$ RECOMMENDATION: '' @ s) (take 3 sg))"

text \<open>
  \<open>checkPasswordStrength\<close> up to its first \<open>await\<close>: the flag, the announcement, the
  precheck (dashboard only) and the request, which is recorded as posted and as pending.
  \<^verbatim>\<open>
  setIsAnalyzing(true);
  setTerminalLines(prev => [...prev, `$ ANALYZING: ...`]);
  const isWeak = weakPasswordDatabase.some(...);
  if (isWeak) { setTerminalLines(prev => [...prev, `... WARNING: ...`]); }
  const response = await fetch('/api/check', { ..., body: JSON.stringify({ password: pwd }) });
  \<close>
\<close>

definition checkPasswordStrength_begin :: "variant \<Rightarrow> string \<Rightarrow> app \<Rightarrow> app" where
  "checkPasswordStrength_begin v pwd s =
     (let s1 = s\<lparr>isAnalyzing := True\<rparr>;
          s2 = append_lines [line_analyzing v pwd] s1;
          s3 = (if v = Dashboard \<and> isWeak pwd then append_lines [line_warning] s2 else s2)
      in s3\<lparr>checkCalls := checkCalls s3 @ [pwd], checkPending := checkPending s3 @ [pwd]\<rparr>)"

text \<open>
  The body decoded without a truthy \<open>error\<close>: what the success path hands to React.
  \<open>setStrength\<close> guards a missing \<open>suggestions\<close> with \<open>|| []\<close>; the updater handed to
  \<open>setTerminalLines\<close> reads \<open>data.suggestions.slice\<close> unguarded and runs while React
  renders, outside the \<open>try\<close>. The result is \<open>None\<close> when that updater raises, and the
  state with the queued updates applied otherwise.
  \<^verbatim>\<open>
  setStrength({ score: data.score, feedback: data.suggestions || [] });
  const crackTime = calculateCrackTime(pwd);
  setTerminalLines(prev => [...prev, ..., ...data.suggestions.slice(0, 3).map(s => ...)]);
  \<close>
\<close>

definition apply_result :: "variant \<Rightarrow> string \<Rightarrow> check_data \<Rightarrow> app \<Rightarrow> app option" where
  "apply_result v pwd data s =
     (let s1 = s\<lparr>strength :=
                 \<lparr>score = resp_score data,
                  feedback = (case resp_suggestions data of None \<Rightarrow> [] | Some sg \<Rightarrow> sg)\<rparr>\<rparr>
      in case resp_suggestions data of
           None \<Rightarrow> None
         | Some sg \<Rightarrow> Some (append_lines (lines_complete v pwd data sg) s1))"

text \<open>
  \<open>checkPasswordStrength\<close> from the response on. Everything the continuation sets,
  the \<open>setIsAnalyzing(false)\<close> of \<open>finally\<close> included, is one batch: it is rendered at
  once, or, when an updater of the batch raises, none of it is committed and the error
  leaves the render uncaught.
\<close>

definition checkPasswordStrength_resume ::
  "variant \<Rightarrow> string \<Rightarrow> check_data fetched \<Rightarrow> app \<Rightarrow> app" where
  "checkPasswordStrength_resume v pwd r s =
     (let queued =
        (case r of
           Rejected m \<Rightarrow> Some (append_lines [line_connection_failed v m] s)
         | Json data \<Rightarrow>
             (case resp_error data of
                None \<Rightarrow> apply_result v pwd data s
              | Some e \<Rightarrow>
                  if e \<noteq> [] then Some (append_lines [line_analysis_failed v e] s)
                  else apply_result v pwd data s))
      in case queued of
           None \<Rightarrow> s\<lparr>fault := Some ''TypeError''\<rparr>
         | Some s' \<Rightarrow> s'\<lparr>isAnalyzing := False\<rparr>)"

text \<open>One whole analysis cycle, when nothing else happens between request and response.\<close>

definition checkPasswordStrength ::
  "variant \<Rightarrow> string \<Rightarrow> check_data fetched \<Rightarrow> app \<Rightarrow> app" where
  "checkPasswordStrength v pwd r s =
     (let s1 = checkPasswordStrength_begin v pwd s
      in checkPasswordStrength_resume v pwd r (s1\<lparr>checkPending := butlast (checkPending s1)\<rparr>))"

section \<open>Debounce timer and effects\<close>

definition clearTimeout :: "nat \<Rightarrow> app \<Rightarrow> app" where
  "clearTimeout h s = s\<lparr>timers := filter (\<lambda>tm. handle tm \<noteq> h) (timers s)\<rparr>"

text \<open>\<open>setTimeout(callback, delay)\<close> at time \<open>now\<close>; the handle returned is \<open>nextTimer s\<close>.\<close>

definition setTimeout :: "nat \<Rightarrow> nat \<Rightarrow> string \<Rightarrow> app \<Rightarrow> app" where
  "setTimeout now delay pw s =
     s\<lparr>timers := timers s @ [\<lparr>handle = nextTimer s, due = now + delay, captured = pw\<rparr>],
       nextTimer := Suc (nextTimer s)\<rparr>"

text \<open>
  The effect on \<open>[password]\<close>: the cleanup of its previous run, then its body.
  \<^verbatim>\<open>
  useEffect(() => {
    const timer = setTimeout(() => { ... }, 500);
    return () => clearTimeout(timer);
  }, [password]);
  \<close>
\<close>

definition debounce_effect :: "nat \<Rightarrow> app \<Rightarrow> app" where
  "debounce_effect now s =
     (let s1 = (case cleanup s of None \<Rightarrow> s | Some h \<Rightarrow> clearTimeout h s);
          timer = nextTimer s1
      in (setTimeout now 500 (password s1) s1)\<lparr>cleanup := Some timer\<rparr>)"

text \<open>The effect on \<open>[showPassword, password]\<close>, which only the plain console has.\<close>

definition visibility_effect :: "variant \<Rightarrow> app \<Rightarrow> app" where
  "visibility_effect v s =
     (case v of
        Dashboard \<Rightarrow> s
      | Classic \<Rightarrow>
          if password s \<noteq> [] \<and> showPassword s then append_lines [''$ VISIBILITY: ENABLED''] s
          else if password s \<noteq> [] then append_lines [''$ VISIBILITY: ENCRYPTED''] s
          else s)"

text \<open>
  \<open>setPassword(x)\<close> with the render it causes: a value equal to the current one changes
  nothing and no effect runs again; otherwise the effects depending on \<open>password\<close> run
  in the order the component declares them.
\<close>

definition setPassword :: "variant \<Rightarrow> nat \<Rightarrow> string \<Rightarrow> app \<Rightarrow> app" where
  "setPassword v now x s =
     (if x = password s then s
      else visibility_effect v (debounce_effect now (s\<lparr>password := x\<rparr>)))"

definition setShowPassword :: "variant \<Rightarrow> bool \<Rightarrow> app \<Rightarrow> app" where
  "setShowPassword v b s =
     (if b = showPassword s then s else visibility_effect v (s\<lparr>showPassword := b\<rparr>))"

text \<open>Mounting at time \<open>now\<close>: every effect runs once on the initial state.\<close>

definition mount :: "variant \<Rightarrow> nat \<Rightarrow> app" where
  "mount v now = visibility_effect v (debounce_effect now initial)"

text \<open>
  The timer's callback, \<open>pw\<close> the password of the render that set the timer.
  \<^verbatim>\<open>
  if (password) { checkPasswordStrength(password); }
  else { setStrength({ score: 0, feedback: [] });
         setTerminalLines(prev => [...prev, `$ PASSWORD CLEARED`]);   // plain console only
  }
  \<close>
\<close>

definition debounce_callback :: "variant \<Rightarrow> string \<Rightarrow> app \<Rightarrow> app" where
  "debounce_callback v pw s =
     (if pw \<noteq> [] then checkPasswordStrength_begin v pw s
      else let s1 = s\<lparr>strength := \<lparr>score = 0, feedback = []\<rparr>\<rparr>
           in case v of
                Dashboard \<Rightarrow> s1
              | Classic \<Rightarrow> append_lines [''$ PASSWORD CLEARED''] s1)"

text \<open>Time reaches \<open>t\<close>: every timeout due by then leaves the runtime and its callback runs.\<close>

definition advance :: "variant \<Rightarrow> nat \<Rightarrow> app \<Rightarrow> app" where
  "advance v t s =
     foldl (\<lambda>s' tm. debounce_callback v (captured tm) s')
       (s\<lparr>timers := filter (\<lambda>tm. \<not> due tm \<le> t) (timers s)\<rparr>)
       (filter (\<lambda>tm. due tm \<le> t) (timers s))"

section \<open>Generation controller\<close>

definition line_generating :: "variant \<Rightarrow> string" where
  "line_generating v =
     (case v of
        Dashboard \<Rightarrow> ''$ GENERATING QUANTUM-SAFE PASSWORD...''
      | Classic \<Rightarrow> ''$ GENERATING PASSWORD: CONNECTING TO BACKEND'')"

definition line_generation_failed :: "variant \<Rightarrow> string \<Rightarrow> string" where
  "line_generation_failed v e =
     (case v of
        Dashboard \<Rightarrow> glyph_cross @ '' GENERATION FAILED: '' @ e
      | Classic \<Rightarrow> ''$ GENERATION FAILED: '' @ e)"

definition lines_generated :: "variant \<Rightarrow> string \<Rightarrow> string list" where
  "lines_generated v pass =
     (case v of
        Dashboard \<Rightarrow>
          [glyph_check @ '' PASSWORD GENERATED'',
           glyph_ruler @ '' Length: '' @ string_of_nat (length pass) @ '' characters'',
           glyph_biceps @ '' Entropy: '' @ toFixed1_times_6_5 (length pass) @ '' bits'',
           glyph_shield @ '' Strength: MAXIMUM'']
      | Classic \<Rightarrow>
          [''$ PASSWORD GENERATED: SUCCESS'',
           ''$ LENGTH: '' @ string_of_nat (length pass),
           ''$ STRENGTH: '' @ (if length pass \<ge> 12 then ''PERFECT'' else ''STRONG'')])"

text \<open>\<open>generateSecurePassword\<close> up to its first \<open>await\<close>.\<close>

definition generateSecurePassword_begin :: "variant \<Rightarrow> app \<Rightarrow> app" where
  "generateSecurePassword_begin v s =
     (append_lines [line_generating v] s)\<lparr>generatePending := Suc (generatePending s)\<rparr>"

text \<open>
  \<open>generateSecurePassword\<close> from the response on. The three setters are batched; the effects
  of the new password run after the render that applies them.
  \<^verbatim>\<open>
  if (data.error) { setTerminalLines(prev => [...prev, `... GENERATION FAILED: ${data.error}`]); return; }
  const pass = data.password;
  setGenerated(pass);
  setPassword(pass);
  setTerminalLines(prev => [...prev, ...]);
  \<close>
\<close>

definition generateSecurePassword_resume ::
  "variant \<Rightarrow> nat \<Rightarrow> generate_data fetched \<Rightarrow> app \<Rightarrow> app" where
  "generateSecurePassword_resume v now r s =
     (case r of
        Rejected m \<Rightarrow> append_lines [line_generation_failed v m] s
      | Json data \<Rightarrow>
          if truthy (gen_error data)
          then append_lines [line_generation_failed v (case gen_error data of None \<Rightarrow> [] | Some e \<Rightarrow> e)] s
          else let pass = gen_password data
               in setPassword v now pass (append_lines (lines_generated v pass) (s\<lparr>generated := pass\<rparr>)))"

text \<open>One whole generation, when nothing else happens between request and response.\<close>

definition generateSecurePassword :: "variant \<Rightarrow> nat \<Rightarrow> generate_data fetched \<Rightarrow> app \<Rightarrow> app" where
  "generateSecurePassword v now r s =
     (let s1 = generateSecurePassword_begin v s
      in generateSecurePassword_resume v now r (s1\<lparr>generatePending := generatePending s1 - 1\<rparr>))"

section \<open>Runs\<close>

text \<open>
  What can happen to a mounted component: input, the visibility button, a response to the
  \<open>i\<close>-th pending check, the generate button and its response, the copy button, a tick of
  one of the three simulators, or nothing but the passing of time.
\<close>

datatype event =
    Change string
  | ToggleShow
  | CheckResponse nat "check_data fetched"
  | GenerateClick
  | GenerateResponse "generate_data fetched"
  | CopyClick
  | StatsTick "nat \<Rightarrow> real"
  | AttackTick "nat \<Rightarrow> real" string
  | LiveCheckTick "nat \<Rightarrow> real" string
  | Idle

definition handle_event :: "variant \<Rightarrow> nat \<Rightarrow> event \<Rightarrow> app \<Rightarrow> app" where
  "handle_event v now e s =
     (case e of
        Change x \<Rightarrow> setPassword v now x s
      | ToggleShow \<Rightarrow> setShowPassword v (\<not> showPassword s) s
      | CheckResponse i r \<Rightarrow>
          if i < length (checkPending s)
          then checkPasswordStrength_resume v (checkPending s ! i) r
                 (s\<lparr>checkPending := take i (checkPending s) @ drop (Suc i) (checkPending s)\<rparr>)
          else s
      | GenerateClick \<Rightarrow> generateSecurePassword_begin v s
      | GenerateResponse r \<Rightarrow>
          if 0 < generatePending s
          then generateSecurePassword_resume v now r (s\<lparr>generatePending := generatePending s - 1\<rparr>)
          else s
      | CopyClick \<Rightarrow>
          if v = Dashboard \<and> generated s \<noteq> []
          then append_lines [glyph_check @ '' Password copied to clipboard''] s
          else s
      | StatsTick rnd \<Rightarrow>
          if v = Dashboard then s\<lparr>globalStats := globalStats_tick rnd (globalStats s)\<rparr> else s
      | AttackTick rnd ts \<Rightarrow>
          if v = Dashboard
          then s\<lparr>attackData := attackData_push (newAttack rnd now ts) (attackData s)\<rparr>
          else s
      | LiveCheckTick rnd ts \<Rightarrow>
          if v = Dashboard
          then s\<lparr>liveChecks := liveChecks_push (newCheck rnd now ts) (liveChecks s)\<rparr>
          else s
      | Idle \<Rightarrow> s)"

text \<open>
  An event at time \<open>t\<close>: the timeouts due by \<open>t\<close> fire first. After an updater has raised
  while rendering the tree is unmounted and nothing happens any more.
\<close>

definition step :: "variant \<Rightarrow> nat \<times> event \<Rightarrow> app \<Rightarrow> app" where
  "step v te s =
     (if fault s \<noteq> None then s else handle_event v (fst te) (snd te) (advance v (fst te) s))"

fun run :: "variant \<Rightarrow> (nat \<times> event) list \<Rightarrow> app \<Rightarrow> app" where
  "run v [] s = s"
| "run v (te # es) s = run v es (step v te s)"

section \<open>Notions used in the statements\<close>

text \<open>
  The debounce discipline: at most one timeout is live, it is the one the effect's cleanup
  would clear, and it captured the current password.
\<close>

definition debounce_inv :: "app \<Rightarrow> bool" where
  "debounce_inv s =
     (case timers s of
        [] \<Rightarrow> True
      | [tm] \<Rightarrow> cleanup s = Some (handle tm) \<and> captured tm = password s
      | _ \<Rightarrow> False)"



text \<open>A failed analysis: the request was rejected, or the body carries a truthy \<open>error\<close>.\<close>

definition failed :: "check_data fetched \<Rightarrow> bool" where
  "failed r = (case r of Rejected m \<Rightarrow> True | Json data \<Rightarrow> truthy (resp_error data))"

definition failure_line :: "variant \<Rightarrow> check_data fetched \<Rightarrow> string" where
  "failure_line v r =
     (case r of
        Rejected m \<Rightarrow> line_connection_failed v m
      | Json data \<Rightarrow>
          line_analysis_failed v (case resp_error data of None \<Rightarrow> [] | Some e \<Rightarrow> e))"

text \<open>The events that are a successful generation response.\<close>

definition sets_generated :: "event \<Rightarrow> bool" where
  "sets_generated e =
     (case e of
        GenerateResponse r \<Rightarrow> (case r of Rejected m \<Rightarrow> False | Json data \<Rightarrow> \<not> truthy (gen_error data))
      | _ \<Rightarrow> False)"

text \<open>The first \<open>n\<close> draws lie in the range of \<open>Math.random()\<close>, from 0 up to but excluding 1.\<close>

definition unit_draws :: "nat \<Rightarrow> (nat \<Rightarrow> real) \<Rightarrow> bool" where
  "unit_draws n rnd = list_all (\<lambda>i. 0 \<le> rnd i \<and> rnd i < 1) [0..<n]"

definition stats_draws_ok :: "nat \<times> event \<Rightarrow> bool" where
  "stats_draws_ok te = (case snd te of StatsTick rnd \<Rightarrow> unit_draws 4 rnd | _ \<Rightarrow> True)"

text \<open>The events the two feeds created during a run, oldest first.\<close>

fun attacks_created :: "(nat \<times> event) list \<Rightarrow> attack_event list" where
  "attacks_created [] = []"
| "attacks_created ((t, AttackTick rnd ts) # es) = newAttack rnd t ts # attacks_created es"
| "attacks_created (_ # es) = attacks_created es"

fun checks_created :: "(nat \<times> event) list \<Rightarrow> live_check list" where
  "checks_created [] = []"
| "checks_created ((t, LiveCheckTick rnd ts) # es) = newCheck rnd t ts # checks_created es"
| "checks_created (_ # es) = checks_created es"


section \<open>Projections of the operations\<close>

lemma append_lines_simps [simp]:
  "terminalLines (append_lines ls s) = terminalLines s @ ls"
  "strength (append_lines ls s) = strength s"
  "password (append_lines ls s) = password s"
  "generated (append_lines ls s) = generated s"
  "showPassword (append_lines ls s) = showPassword s"
  "isAnalyzing (append_lines ls s) = isAnalyzing s"
  "attackData (append_lines ls s) = attackData s"
  "globalStats (append_lines ls s) = globalStats s"
  "liveChecks (append_lines ls s) = liveChecks s"
  "timers (append_lines ls s) = timers s"
  "nextTimer (append_lines ls s) = nextTimer s"
  "cleanup (append_lines ls s) = cleanup s"
  "checkCalls (append_lines ls s) = checkCalls s"
  "checkPending (append_lines ls s) = checkPending s"
  "generatePending (append_lines ls s) = generatePending s"
  "fault (append_lines ls s) = fault s"
  by (simp_all add: append_lines_def)

lemma begin_simps [simp]:
  "strength (checkPasswordStrength_begin v pwd s) = strength s"
  "password (checkPasswordStrength_begin v pwd s) = password s"
  "generated (checkPasswordStrength_begin v pwd s) = generated s"
  "showPassword (checkPasswordStrength_begin v pwd s) = showPassword s"
  "isAnalyzing (checkPasswordStrength_begin v pwd s) = True"
  "attackData (checkPasswordStrength_begin v pwd s) = attackData s"
  "globalStats (checkPasswordStrength_begin v pwd s) = globalStats s"
  "liveChecks (checkPasswordStrength_begin v pwd s) = liveChecks s"
  "timers (checkPasswordStrength_begin v pwd s) = timers s"
  "nextTimer (checkPasswordStrength_begin v pwd s) = nextTimer s"
  "cleanup (checkPasswordStrength_begin v pwd s) = cleanup s"
  "checkCalls (checkPasswordStrength_begin v pwd s) = checkCalls s @ [pwd]"
  "checkPending (checkPasswordStrength_begin v pwd s) = checkPending s @ [pwd]"
  "generatePending (checkPasswordStrength_begin v pwd s) = generatePending s"
  "fault (checkPasswordStrength_begin v pwd s) = fault s"
  by (simp_all add: checkPasswordStrength_begin_def Let_def)

lemma begin_lines:
  "terminalLines (checkPasswordStrength_begin v pwd s) =
     terminalLines s @ [line_analyzing v pwd]
       @ (if v = Dashboard \<and> isWeak pwd then [line_warning] else [])"
  by (simp add: checkPasswordStrength_begin_def Let_def)

lemma resume_failed:
  "failed r \<Longrightarrow>
     checkPasswordStrength_resume v pwd r s =
       (append_lines [failure_line v r] s)\<lparr>isAnalyzing := False\<rparr>"
  by (auto simp: failed_def failure_line_def checkPasswordStrength_resume_def truthy_def
           split: fetched.splits option.splits)

lemma resume_succeeded:
  "\<not> failed (Json data) \<Longrightarrow> resp_suggestions data = Some sg \<Longrightarrow>
     checkPasswordStrength_resume v pwd (Json data) s =
       (append_lines (lines_complete v pwd data sg)
          (s\<lparr>strength := \<lparr>score = resp_score data, feedback = sg\<rparr>\<rparr>))\<lparr>isAnalyzing := False\<rparr>"
  by (auto simp: failed_def checkPasswordStrength_resume_def apply_result_def truthy_def Let_def
           split: option.splits)

lemma resume_raised:
  "\<not> failed (Json data) \<Longrightarrow> resp_suggestions data = None \<Longrightarrow>
     checkPasswordStrength_resume v pwd (Json data) s = s\<lparr>fault := Some ''TypeError''\<rparr>"
  by (auto simp: failed_def checkPasswordStrength_resume_def apply_result_def truthy_def Let_def
           split: option.splits)

lemma resume_simps [simp]:
  "password (checkPasswordStrength_resume v pwd r s) = password s"
  "generated (checkPasswordStrength_resume v pwd r s) = generated s"
  "showPassword (checkPasswordStrength_resume v pwd r s) = showPassword s"
  "attackData (checkPasswordStrength_resume v pwd r s) = attackData s"
  "globalStats (checkPasswordStrength_resume v pwd r s) = globalStats s"
  "liveChecks (checkPasswordStrength_resume v pwd r s) = liveChecks s"
  "timers (checkPasswordStrength_resume v pwd r s) = timers s"
  "nextTimer (checkPasswordStrength_resume v pwd r s) = nextTimer s"
  "cleanup (checkPasswordStrength_resume v pwd r s) = cleanup s"
  "checkCalls (checkPasswordStrength_resume v pwd r s) = checkCalls s"
  "checkPending (checkPasswordStrength_resume v pwd r s) = checkPending s"
  "generatePending (checkPasswordStrength_resume v pwd r s) = generatePending s"
  by (simp_all add: checkPasswordStrength_resume_def apply_result_def Let_def
        split: fetched.splits option.splits)

lemma visibility_effect_simps [simp]:
  "strength (visibility_effect v s) = strength s"
  "password (visibility_effect v s) = password s"
  "generated (visibility_effect v s) = generated s"
  "showPassword (visibility_effect v s) = showPassword s"
  "isAnalyzing (visibility_effect v s) = isAnalyzing s"
  "attackData (visibility_effect v s) = attackData s"
  "globalStats (visibility_effect v s) = globalStats s"
  "liveChecks (visibility_effect v s) = liveChecks s"
  "timers (visibility_effect v s) = timers s"
  "nextTimer (visibility_effect v s) = nextTimer s"
  "cleanup (visibility_effect v s) = cleanup s"
  "checkCalls (visibility_effect v s) = checkCalls s"
  "checkPending (visibility_effect v s) = checkPending s"
  "generatePending (visibility_effect v s) = generatePending s"
  "fault (visibility_effect v s) = fault s"
  by (cases v; simp add: visibility_effect_def)+

lemma debounce_effect_simps [simp]:
  "strength (debounce_effect now s) = strength s"
  "password (debounce_effect now s) = password s"
  "generated (debounce_effect now s) = generated s"
  "showPassword (debounce_effect now s) = showPassword s"
  "terminalLines (debounce_effect now s) = terminalLines s"
  "isAnalyzing (debounce_effect now s) = isAnalyzing s"
  "attackData (debounce_effect now s) = attackData s"
  "globalStats (debounce_effect now s) = globalStats s"
  "liveChecks (debounce_effect now s) = liveChecks s"
  "nextTimer (debounce_effect now s) = Suc (nextTimer s)"
  "cleanup (debounce_effect now s) = Some (nextTimer s)"
  "checkCalls (debounce_effect now s) = checkCalls s"
  "checkPending (debounce_effect now s) = checkPending s"
  "generatePending (debounce_effect now s) = generatePending s"
  "fault (debounce_effect now s) = fault s"
  by (simp_all add: debounce_effect_def setTimeout_def clearTimeout_def Let_def split: option.splits)

lemma debounce_effect_timers:
  "timers (debounce_effect now s) =
     (case cleanup s of None \<Rightarrow> timers s | Some h \<Rightarrow> filter (\<lambda>tm. handle tm \<noteq> h) (timers s))
       @ [\<lparr>handle = nextTimer s, due = now + 500, captured = password s\<rparr>]"
  by (simp add: debounce_effect_def setTimeout_def clearTimeout_def Let_def split: option.splits)

lemma debounce_inv_cleared:
  "debounce_inv s \<Longrightarrow>
     (case cleanup s of None \<Rightarrow> timers s | Some h \<Rightarrow> filter (\<lambda>tm. handle tm \<noteq> h) (timers s)) = []
     \<or> (cleanup s = None \<and> timers s = [])"
  by (auto simp: debounce_inv_def split: list.splits option.splits)

lemma debounce_effect_timers_inv:
  assumes "debounce_inv s"
  shows "timers (debounce_effect now s) = [\<lparr>handle = nextTimer s, due = now + 500, captured = password s\<rparr>]"
proof -
  from assms have "(case cleanup s of None \<Rightarrow> timers s | Some h \<Rightarrow> filter (\<lambda>tm. handle tm \<noteq> h) (timers s)) = []"
    by (auto simp: debounce_inv_def split: list.splits option.splits)
  then show ?thesis by (simp add: debounce_effect_timers)
qed

lemma debounce_inv_password_update:
  "debounce_inv s \<Longrightarrow>
   (case cleanup (s\<lparr>password := x\<rparr>) of None \<Rightarrow> timers (s\<lparr>password := x\<rparr>)
      | Some h \<Rightarrow> filter (\<lambda>tm. handle tm \<noteq> h) (timers (s\<lparr>password := x\<rparr>))) = []"
  by (auto simp: debounce_inv_def split: list.splits option.splits)

lemma setPassword_timers:
  assumes "debounce_inv s" and "x \<noteq> password s"
  shows "timers (setPassword v now x s) = [\<lparr>handle = nextTimer s, due = now + 500, captured = x\<rparr>]"
  using assms debounce_inv_password_update [OF assms(1), of x]
  by (simp add: setPassword_def debounce_effect_timers)

lemma setPassword_simps [simp]:
  "password (setPassword v now x s) = x"
  "strength (setPassword v now x s) = strength s"
  "generated (setPassword v now x s) = generated s"
  "showPassword (setPassword v now x s) = showPassword s"
  "isAnalyzing (setPassword v now x s) = isAnalyzing s"
  "attackData (setPassword v now x s) = attackData s"
  "globalStats (setPassword v now x s) = globalStats s"
  "liveChecks (setPassword v now x s) = liveChecks s"
  "checkCalls (setPassword v now x s) = checkCalls s"
  "checkPending (setPassword v now x s) = checkPending s"
  "generatePending (setPassword v now x s) = generatePending s"
  "fault (setPassword v now x s) = fault s"
  by (simp_all add: setPassword_def)


lemma advance_single_due:
  "timers s = [tm] \<Longrightarrow> due tm \<le> t \<Longrightarrow>
     advance v t s = debounce_callback v (captured tm) (s\<lparr>timers := []\<rparr>)"
  by (simp add: advance_def)


lemma mount_Classic: "mount Classic 0 =
  initial\<lparr>timers := [\<lparr>handle = 0, due = 500, captured = []\<rparr>], nextTimer := 1, cleanup := Some 0\<rparr>"
  by (simp add: mount_def initial_def debounce_effect_def setTimeout_def visibility_effect_def)

lemma includes_str_sublist: "includes_str s t \<longleftrightarrow> sublist t s"
  by (induction s) (simp_all add: sublist_Cons_right)

lemma set_substrings: "set (substrings p) = {s. sublist s p}"
proof -
  have "set (substrings p) = {s. \<exists>ys'. suffix ys' p \<and> prefix s ys'}"
    by (auto simp: substrings_def)
  then show ?thesis by (simp add: sublist_altdef')
qed

lemma sublist_map_iff:
  "sublist (map f e) (map f p) \<longleftrightarrow> (\<exists>s. sublist s p \<and> map f s = map f e)"
proof
  assume "sublist (map f e) (map f p)"
  then obtain ps ss where "map f p = ps @ map f e @ ss"
    unfolding sublist_def by blast
  then obtain a b where ab: "p = a @ b" "map f e @ ss = map f b"
    unfolding map_eq_append_conv by blast
  from ab(2) have "map f b = map f e @ ss" by simp
  then obtain c d where cd: "b = c @ d" "map f e = map f c"
    unfolding map_eq_append_conv by blast
  have "p = a @ c @ d" by (simp add: ab(1) cd(1))
  then have "sublist c p" unfolding sublist_def by blast
  moreover have "map f c = map f e" by (simp add: cd(2))
  ultimately show "\<exists>s. sublist s p \<and> map f s = map f e" by blast
next
  assume "\<exists>s. sublist s p \<and> map f s = map f e"
  then obtain s a b where *: "p = a @ s @ b" "map f s = map f e"
    unfolding sublist_def by blast
  have "map f p = map f a @ map f e @ map f b" by (simp add: *)
  then show "sublist (map f e) (map f p)" unfolding sublist_def by blast
qed

lemma zip_letters_char:
  "(a, b) \<in> set (zip capital_letters small_letters) \<Longrightarrow>
     65 \<le> (of_char a :: nat) \<and> (of_char a :: nat) \<le> 90 \<and> (of_char b :: nat) = of_char a + 32"
  by (auto simp: capital_letters_def small_letters_def)

lemma capitals_enumerated:
  "list_all (\<lambda>n. (char_of n, char_of (n + 32)) \<in> set (zip capital_letters small_letters)) [65..<91::nat]"
  by code_simp

lemma capital_has_small:
  assumes "65 \<le> (of_char a :: nat)" and "(of_char a :: nat) \<le> 90"
  shows "(a, char_of ((of_char a :: nat) + 32)) \<in> set (zip capital_letters small_letters)"
proof -
  have all: "\<forall>n \<in> {65..<91::nat}. (char_of n, char_of (n + 32)) \<in> set (zip capital_letters small_letters)"
    using capitals_enumerated unfolding list_all_iff set_upt .
  from assms have "(of_char a :: nat) \<in> {65..<91}" by simp
  with all have "(char_of (of_char a :: nat), char_of ((of_char a :: nat) + 32)) \<in> set (zip capital_letters small_letters)"
    by blast
  then show ?thesis by simp
qed

lemma toLowerCase_char_eq_iff:
  "toLowerCase_char a = toLowerCase_char b \<longleftrightarrow> same_up_to_case a b"
proof
  assume eq: "toLowerCase_char a = toLowerCase_char b"
  let ?na = "of_char a :: nat" and ?nb = "of_char b :: nat"
  show "same_up_to_case a b"
  proof (cases "65 \<le> ?na \<and> ?na \<le> 90")
    case ua: True
    show ?thesis
    proof (cases "65 \<le> ?nb \<and> ?nb \<le> 90")
      case True
      with ua eq have "char_of (?na + 32) = (char_of (?nb + 32) :: char)"
        by (simp add: toLowerCase_char_def Let_def)
      then have "(of_char (char_of (?na + 32) :: char) :: nat) = of_char (char_of (?nb + 32) :: char)"
        by simp
      with ua True have "?na = ?nb" by (simp add: of_char_of)
      then have "a = b" by (simp add: of_char_eq_iff)
      then show ?thesis by (simp add: same_up_to_case_def)
    next
      case False
      with ua eq have "b = char_of (?na + 32)"
        by (auto simp: toLowerCase_char_def Let_def)
      with capital_has_small ua show ?thesis by (simp add: same_up_to_case_def)
    qed
  next
    case la: False
    show ?thesis
    proof (cases "65 \<le> ?nb \<and> ?nb \<le> 90")
      case True
      with la eq have "a = char_of (?nb + 32)"
        by (auto simp: toLowerCase_char_def Let_def)
      with capital_has_small True show ?thesis by (simp add: same_up_to_case_def)
    next
      case False
      with la eq have "a = b" by (auto simp: toLowerCase_char_def Let_def)
      then show ?thesis by (simp add: same_up_to_case_def)
    qed
  qed
next
  assume "same_up_to_case a b"
  then consider "a = b" | "(a, b) \<in> set (zip capital_letters small_letters)"
    | "(b, a) \<in> set (zip capital_letters small_letters)"
    by (auto simp: same_up_to_case_def)
  then show "toLowerCase_char a = toLowerCase_char b"
  proof cases
    case 1
    then show ?thesis by simp
  next
    case 2
    from zip_letters_char [OF 2] have r: "65 \<le> (of_char a :: nat)" "(of_char a :: nat) \<le> 90"
      and b: "(of_char b :: nat) = of_char a + 32" by simp_all
    from b have "char_of (of_char b :: nat) = (char_of ((of_char a :: nat) + 32) :: char)" by simp
    then have b': "b = char_of ((of_char a :: nat) + 32)" by simp
    from r b have "\<not> (65 \<le> (of_char b :: nat) \<and> (of_char b :: nat) \<le> 90)" by simp
    with r b' show ?thesis by (simp add: toLowerCase_char_def Let_def)
  next
    case 3
    from zip_letters_char [OF 3] have r: "65 \<le> (of_char b :: nat)" "(of_char b :: nat) \<le> 90"
      and a: "(of_char a :: nat) = of_char b + 32" by simp_all
    from a have "char_of (of_char a :: nat) = (char_of ((of_char b :: nat) + 32) :: char)" by simp
    then have a': "a = char_of ((of_char b :: nat) + 32)" by simp
    from r a have "\<not> (65 \<le> (of_char a :: nat) \<and> (of_char a :: nat) \<le> 90)" by simp
    with r a' show ?thesis by (simp add: toLowerCase_char_def Let_def)
  qed
qed

lemma toLowerCase_eq_iff:
  "toLowerCase s = toLowerCase e \<longleftrightarrow> list_all2 same_up_to_case s e"
proof -
  have "toLowerCase s = toLowerCase e \<longleftrightarrow> list_all2 (=) (map toLowerCase_char s) (map toLowerCase_char e)"
    by (simp add: toLowerCase_def list.rel_eq)
  also have "\<dots> \<longleftrightarrow> list_all2 (\<lambda>a b. toLowerCase_char a = toLowerCase_char b) s e"
    by (simp add: list.rel_map)
  also have "\<dots> \<longleftrightarrow> list_all2 same_up_to_case s e"
    by (simp add: toLowerCase_char_eq_iff)
  finally show ?thesis .
qed

lemma sublist_toLowerCase_iff:
  "sublist (toLowerCase e) (toLowerCase p) \<longleftrightarrow> (\<exists>s. sublist s p \<and> list_all2 same_up_to_case s e)"
proof -
  have "sublist (toLowerCase e) (toLowerCase p) \<longleftrightarrow> (\<exists>s. sublist s p \<and> toLowerCase s = toLowerCase e)"
    unfolding toLowerCase_def by (rule sublist_map_iff)
  then show ?thesis by (simp add: toLowerCase_eq_iff)
qed

lemma isWeak_refines: "isWeak pwd = spec_weak_pattern pwd"
  unfolding isWeak_def spec_weak_pattern_def case_insensitive_substring_def
  by (simp add: list_ex_iff includes_str_sublist set_substrings sublist_toLowerCase_iff)

lemma resume_cases [case_names Failed Raised Succeeded]:
  obtains "failed r"
      and "\<And>pwd s. checkPasswordStrength_resume v pwd r s
             = (append_lines [failure_line v r] s)\<lparr>isAnalyzing := False\<rparr>"
  | "\<not> failed r"
      and "\<And>pwd s. checkPasswordStrength_resume v pwd r s = s\<lparr>fault := Some ''TypeError''\<rparr>"
  | data sg where "\<not> failed r"
      and "\<And>pwd s. checkPasswordStrength_resume v pwd r s
             = (append_lines (lines_complete v pwd data sg)
                  (s\<lparr>strength := \<lparr>score = resp_score data, feedback = sg\<rparr>\<rparr>))\<lparr>isAnalyzing := False\<rparr>"
proof (cases "failed r")
  case True
  then show ?thesis using that(1) resume_failed by blast
next
  case False
  then obtain data where r: "r = Json data"
    by (cases r) (simp_all add: failed_def)
  show ?thesis
  proof (cases "resp_suggestions data")
    case None
    with False r that(2) resume_raised show ?thesis by blast
  next
    case (Some sg)
    with False r that(3) resume_succeeded show ?thesis by blast
  qed
qed

lemma cycle_lines:
  "\<exists>rest. terminalLines (checkPasswordStrength v pwd r s) =
     terminalLines (checkPasswordStrength_begin v pwd s) @ rest"
  by (cases rule: resume_cases [of r v]) (simp_all add: checkPasswordStrength_def Let_def)

lemma cycle_strength:
  "strength (checkPasswordStrength v pwd r s) = strength (checkPasswordStrength v pwd' r s)"
  by (cases rule: resume_cases [of r v]) (simp_all add: checkPasswordStrength_def Let_def)

lemma cycle_fault:
  "fault (checkPasswordStrength v pwd r s) = fault (checkPasswordStrength v pwd' r s)"
  by (cases rule: resume_cases [of r v]) (simp_all add: checkPasswordStrength_def Let_def)

lemma generate_resume_failed:
  "truthy (gen_error data) \<Longrightarrow>
     generateSecurePassword_resume v now (Json data) s =
       append_lines [line_generation_failed v (case gen_error data of None \<Rightarrow> [] | Some e \<Rightarrow> e)] s"
  by (simp add: generateSecurePassword_resume_def)

lemma generate_resume_rejected:
  "generateSecurePassword_resume v now (Rejected m) s = append_lines [line_generation_failed v m] s"
  by (simp add: generateSecurePassword_resume_def)

lemma generate_resume_succeeded:
  "\<not> truthy (gen_error data) \<Longrightarrow>
     generateSecurePassword_resume v now (Json data) s =
       setPassword v now (gen_password data)
         (append_lines (lines_generated v (gen_password data)) (s\<lparr>generated := gen_password data\<rparr>))"
  by (simp add: generateSecurePassword_resume_def Let_def)

lemma setPassword_timers_frame:
  assumes "timers s' = timers s" and "cleanup s' = cleanup s" and "nextTimer s' = nextTimer s"
    and "password s' = password s"
  shows "timers (setPassword v now x s') = timers (setPassword v now x s)"
  using assms by (simp add: setPassword_def debounce_effect_timers split: option.splits)

lemma setPassword_cleanup_frame:
  assumes "cleanup s' = cleanup s" and "nextTimer s' = nextTimer s" and "password s' = password s"
  shows "cleanup (setPassword v now x s') = cleanup (setPassword v now x s)"
    and "nextTimer (setPassword v now x s') = nextTimer (setPassword v now x s)"
  using assms by (simp_all add: setPassword_def)


lemma mount_Dashboard: "mount Dashboard 0 =
  initial\<lparr>timers := [\<lparr>handle = 0, due = 500, captured = []\<rparr>], nextTimer := 1, cleanup := Some 0\<rparr>"
  by (simp add: mount_def initial_def debounce_effect_def setTimeout_def visibility_effect_def)

lemma debounce_callback_simps [simp]:
  "password (debounce_callback v pw s) = password s"
  "generated (debounce_callback v pw s) = generated s"
  "showPassword (debounce_callback v pw s) = showPassword s"
  "attackData (debounce_callback v pw s) = attackData s"
  "globalStats (debounce_callback v pw s) = globalStats s"
  "liveChecks (debounce_callback v pw s) = liveChecks s"
  "timers (debounce_callback v pw s) = timers s"
  "nextTimer (debounce_callback v pw s) = nextTimer s"
  "cleanup (debounce_callback v pw s) = cleanup s"
  "generatePending (debounce_callback v pw s) = generatePending s"
  "fault (debounce_callback v pw s) = fault s"
  by (cases v; simp add: debounce_callback_def Let_def)+


lemma foldl_callback_frame:
  assumes "\<And>pw s. f (debounce_callback v pw s) = f s"
  shows "f (foldl (\<lambda>s' tm. debounce_callback v (captured tm) s') s tms) = f s"
  using assms by (induction tms arbitrary: s) simp_all

lemma advance_simps [simp]:
  "password (advance v t s) = password s"
  "generated (advance v t s) = generated s"
  "showPassword (advance v t s) = showPassword s"
  "attackData (advance v t s) = attackData s"
  "globalStats (advance v t s) = globalStats s"
  "liveChecks (advance v t s) = liveChecks s"
  "nextTimer (advance v t s) = nextTimer s"
  "cleanup (advance v t s) = cleanup s"
  "generatePending (advance v t s) = generatePending s"
  "fault (advance v t s) = fault s"
  unfolding advance_def by (subst foldl_callback_frame; simp)+


lemma handle_event_generated:
  "\<not> sets_generated e \<Longrightarrow> generated (handle_event v now e s) = generated s"
  by (cases e)
     (auto simp: handle_event_def sets_generated_def setShowPassword_def generateSecurePassword_begin_def
        generate_resume_failed generate_resume_rejected split: fetched.splits)

lemma step_generated:
  "\<not> sets_generated (snd te) \<Longrightarrow> generated (step v te s) = generated s"
  by (simp add: step_def handle_event_generated)

lemma run_generated:
  "list_all (\<lambda>te. \<not> sets_generated (snd te)) es \<Longrightarrow> generated (run v es s) = generated s"
  by (induction es arbitrary: s) (simp_all add: step_generated)

lemma step_faulted: "fault s \<noteq> None \<Longrightarrow> step v te s = s"
  by (simp add: step_def)

lemma run_faulted: "fault s \<noteq> None \<Longrightarrow> run v es s = s"
  by (induction es arbitrary: s) (simp_all add: step_faulted)

lemma run_fault_free: "fault (run v es s) = None \<Longrightarrow> fault s = None"
  using run_faulted [of s v es] by (cases "fault s") auto

lemma take_append_take: "take n (xs @ take n ys) = take n (xs @ ys)"
  by (simp add: min_def)

lemma handle_event_attackData:
  "attackData (handle_event v now e s) =
     (case e of
        AttackTick rnd ts \<Rightarrow>
          if v = Dashboard then attackData_push (newAttack rnd now ts) (attackData s) else attackData s
      | _ \<Rightarrow> attackData s)"
  by (cases e)
     (auto simp: handle_event_def setShowPassword_def generateSecurePassword_begin_def
        generateSecurePassword_resume_def Let_def split: fetched.splits)

lemma handle_event_liveChecks:
  "liveChecks (handle_event v now e s) =
     (case e of
        LiveCheckTick rnd ts \<Rightarrow>
          if v = Dashboard then liveChecks_push (newCheck rnd now ts) (liveChecks s) else liveChecks s
      | _ \<Rightarrow> liveChecks s)"
  by (cases e)
     (auto simp: handle_event_def setShowPassword_def generateSecurePassword_begin_def
        generateSecurePassword_resume_def Let_def split: fetched.splits)

lemma step_attackData_length:
  "length (attackData s) \<le> 10 \<Longrightarrow> length (attackData (step v te s)) \<le> 10"
  by (cases "snd te") (auto simp: step_def handle_event_attackData attackData_push_def)

lemma step_liveChecks_length:
  "length (liveChecks s) \<le> 5 \<Longrightarrow> length (liveChecks (step v te s)) \<le> 5"
  by (cases "snd te") (auto simp: step_def handle_event_liveChecks liveChecks_push_def)

lemma run_attackData_length:
  "length (attackData s) \<le> 10 \<Longrightarrow> length (attackData (run v es s)) \<le> 10"
  by (induction es arbitrary: s) (simp_all add: step_attackData_length)

lemma run_liveChecks_length:
  "length (liveChecks s) \<le> 5 \<Longrightarrow> length (liveChecks (run v es s)) \<le> 5"
  by (induction es arbitrary: s) (simp_all add: step_liveChecks_length)

lemma attacks_created_Cons: "attacks_created (te # es) = attacks_created [te] @ attacks_created es"
  by (cases te; cases "snd te") auto

lemma checks_created_Cons: "checks_created (te # es) = checks_created [te] @ checks_created es"
  by (cases te; cases "snd te") auto

lemma step_attackData_created:
  "fault s = None \<Longrightarrow> length (attackData s) \<le> 10 \<Longrightarrow>
     attackData (step Dashboard te s) = take 10 (rev (attacks_created [te]) @ attackData s)"
  by (cases te; cases "snd te") (auto simp: step_def handle_event_attackData attackData_push_def)

lemma step_liveChecks_created:
  "fault s = None \<Longrightarrow> length (liveChecks s) \<le> 5 \<Longrightarrow>
     liveChecks (step Dashboard te s) = take 5 (rev (checks_created [te]) @ liveChecks s)"
  by (cases te; cases "snd te") (auto simp: step_def handle_event_liveChecks liveChecks_push_def)

lemma run_attackData_created:
  "fault (run Dashboard es s) = None \<Longrightarrow> length (attackData s) \<le> 10 \<Longrightarrow>
     attackData (run Dashboard es s) = take 10 (rev (attacks_created es) @ attackData s)"
proof (induction es arbitrary: s)
  case Nil
  then show ?case by simp
next
  case (Cons te es)
  from Cons.prems(1) have f': "fault (run Dashboard es (step Dashboard te s)) = None" by simp
  then have "fault (step Dashboard te s) = None" by (rule run_fault_free)
  then have f: "fault s = None"
    using step_faulted [of s Dashboard te] by (cases "fault s") auto
  have len: "length (attackData (step Dashboard te s)) \<le> 10"
    using Cons.prems(2) by (rule step_attackData_length)
  have "attackData (run Dashboard (te # es) s) = attackData (run Dashboard es (step Dashboard te s))"
    by simp
  also have "\<dots> = take 10 (rev (attacks_created es) @ attackData (step Dashboard te s))"
    by (rule Cons.IH [OF f' len])
  also have "\<dots> = take 10 (rev (attacks_created es) @ take 10 (rev (attacks_created [te]) @ attackData s))"
    by (simp only: step_attackData_created [OF f Cons.prems(2)])
  also have "\<dots> = take 10 (rev (attacks_created es) @ rev (attacks_created [te]) @ attackData s)"
    by (rule take_append_take)
  also have "\<dots> = take 10 (rev (attacks_created (te # es)) @ attackData s)"
    by (subst (2) attacks_created_Cons) simp
  finally show ?case .
qed

lemma run_liveChecks_created:
  "fault (run Dashboard es s) = None \<Longrightarrow> length (liveChecks s) \<le> 5 \<Longrightarrow>
     liveChecks (run Dashboard es s) = take 5 (rev (checks_created es) @ liveChecks s)"
proof (induction es arbitrary: s)
  case Nil
  then show ?case by simp
next
  case (Cons te es)
  from Cons.prems(1) have f': "fault (run Dashboard es (step Dashboard te s)) = None" by simp
  then have "fault (step Dashboard te s) = None" by (rule run_fault_free)
  then have f: "fault s = None"
    using step_faulted [of s Dashboard te] by (cases "fault s") auto
  have len: "length (liveChecks (step Dashboard te s)) \<le> 5"
    using Cons.prems(2) by (rule step_liveChecks_length)
  have "liveChecks (run Dashboard (te # es) s) = liveChecks (run Dashboard es (step Dashboard te s))"
    by simp
  also have "\<dots> = take 5 (rev (checks_created es) @ liveChecks (step Dashboard te s))"
    by (rule Cons.IH [OF f' len])
  also have "\<dots> = take 5 (rev (checks_created es) @ take 5 (rev (checks_created [te]) @ liveChecks s))"
    by (simp only: step_liveChecks_created [OF f Cons.prems(2)])
  also have "\<dots> = take 5 (rev (checks_created es) @ rev (checks_created [te]) @ liveChecks s)"
    by (rule take_append_take)
  also have "\<dots> = take 5 (rev (checks_created (te # es)) @ liveChecks s)"
    by (subst (2) checks_created_Cons) simp
  finally show ?case .
qed

lemma mount_feeds: "attackData (mount v t0) = []" "liveChecks (mount v t0) = []"
  by (simp_all add: mount_def initial_def)

lemma random_below_range:
  assumes "0 \<le> r" and "r < 1" and "0 < n"
  shows "0 \<le> random_below r n \<and> random_below r n \<le> n - 1"
proof -
  have "0 \<le> r * of_int n" using assms by simp
  then have lo: "0 \<le> \<lfloor>r * of_int n\<rfloor>" by simp
  have "r * of_int n < 1 * of_int n"
    using assms by (intro mult_strict_right_mono) simp_all
  then have "\<lfloor>r * of_int n\<rfloor> < n" by (simp add: floor_less_iff)
  with lo show ?thesis by (simp add: random_below_def)
qed

lemma unit_draws_4:
  "unit_draws 4 rnd \<Longrightarrow> i < 4 \<Longrightarrow> 0 \<le> rnd i \<and> rnd i < 1"
  by (simp add: unit_draws_def list_all_iff)

lemma globalStats_tick_ranges:
  assumes "unit_draws 4 rnd"
  shows "attacksToday prev \<le> attacksToday (globalStats_tick rnd prev)"
    and "attacksToday (globalStats_tick rnd prev) \<le> attacksToday prev + 999"
    and "passwordsCompromised prev \<le> passwordsCompromised (globalStats_tick rnd prev)"
    and "passwordsCompromised (globalStats_tick rnd prev) \<le> passwordsCompromised prev + 49"
    and "1000 \<le> activeThreats (globalStats_tick rnd prev)"
    and "activeThreats (globalStats_tick rnd prev) \<le> 1499"
    and "5000000 \<le> weakPasswords (globalStats_tick rnd prev)"
    and "weakPasswords (globalStats_tick rnd prev) \<le> 5999999"
  using random_below_range [of "rnd 0" 1000] random_below_range [of "rnd 1" 50]
    random_below_range [of "rnd 2" 500] random_below_range [of "rnd 3" 1000000]
    unit_draws_4 [OF assms, of 0] unit_draws_4 [OF assms, of 1]
    unit_draws_4 [OF assms, of 2] unit_draws_4 [OF assms, of 3]
  by (simp_all add: globalStats_tick_def)

lemma handle_event_globalStats:
  "globalStats (handle_event v now e s) =
     (case e of
        StatsTick rnd \<Rightarrow> if v = Dashboard then globalStats_tick rnd (globalStats s) else globalStats s
      | _ \<Rightarrow> globalStats s)"
  by (cases e)
     (auto simp: handle_event_def setShowPassword_def generateSecurePassword_begin_def
        generateSecurePassword_resume_def Let_def split: fetched.splits)

lemma step_globalStats_mono:
  assumes "stats_draws_ok te"
  shows "attacksToday (globalStats s) \<le> attacksToday (globalStats (step v te s))
       \<and> passwordsCompromised (globalStats s) \<le> passwordsCompromised (globalStats (step v te s))"
proof (cases "snd te")
  case (StatsTick rnd)
  with assms have "unit_draws 4 rnd" by (simp add: stats_draws_ok_def)
  from globalStats_tick_ranges(1,3) [OF this] StatsTick show ?thesis
    by (simp add: step_def handle_event_globalStats)
qed (simp_all add: step_def handle_event_globalStats)

lemma run_globalStats_mono:
  "list_all stats_draws_ok es \<Longrightarrow>
     attacksToday (globalStats s) \<le> attacksToday (globalStats (run v es s))
     \<and> passwordsCompromised (globalStats s) \<le> passwordsCompromised (globalStats (run v es s))"
proof (induction es arbitrary: s)
  case Nil
  then show ?case by simp
next
  case (Cons te es)
  then have "stats_draws_ok te" "list_all stats_draws_ok es" by simp_all
  from step_globalStats_mono [OF this(1), of s v] Cons.IH [OF this(2), of "step v te s"]
  show ?case by simp
qed

section \<open>The debounce discipline along runs\<close>


















section \<open>Crack-time estimate: the buckets\<close>

text \<open>
  C1 (as amended). The estimate is a function of the length alone: the empty password gives
  \<open>Instant\<close>, lengths 1 to 5 give \<open>< 1 second\<close>, 6 and 7 \<open>< 1 minute\<close>, 8 and 9
  \<open>< 1 hour\<close>, 10 and 11 \<open>< 1 day\<close>, 12 and 13 \<open>< 1 year\<close>, and 14 or more
  \<open>> 100 years\<close>; each label is written with a blank after its comparison sign.
\<close>

theorem calculateCrackTime_buckets:
  "(calculateCrackTime p = ''Instant'' \<longleftrightarrow> length p = 0)
   \<and> (calculateCrackTime p = ''< 1 second'' \<longleftrightarrow> 1 \<le> length p \<and> length p < 6)
   \<and> (calculateCrackTime p = ''< 1 minute'' \<longleftrightarrow> 6 \<le> length p \<and> length p < 8)
   \<and> (calculateCrackTime p = ''< 1 hour'' \<longleftrightarrow> 8 \<le> length p \<and> length p < 10)
   \<and> (calculateCrackTime p = ''< 1 day'' \<longleftrightarrow> 10 \<le> length p \<and> length p < 12)
   \<and> (calculateCrackTime p = ''< 1 year'' \<longleftrightarrow> 12 \<le> length p \<and> length p < 14)
   \<and> (calculateCrackTime p = ''> 100 years'' \<longleftrightarrow> 14 \<le> length p)"
  by (cases p) (auto simp: calculateCrackTime_def Let_def)

theorem calculateCrackTime_buckets_witness:
  "calculateCrackTime ''abcdefgh'' = ''< 1 hour'' \<and> calculateCrackTime ''abcdef'' = ''< 1 minute''
   \<and> calculateCrackTime ''abcdefg'' = ''< 1 minute'' \<and> calculateCrackTime [] = ''Instant''"
  using calculateCrackTime_buckets [of "''abcdefgh''"] calculateCrackTime_buckets [of "''abcdef''"]
    calculateCrackTime_buckets [of "''abcdefg''"] calculateCrackTime_buckets [of "[]"]
  by simp

text \<open>The label of a five-letter password is not the string \<open><1 second\<close>.\<close>

theorem calculateCrackTime_label_spelling:
  "calculateCrackTime ''abcde'' \<noteq> ''<1 second''"
  by (simp add: calculateCrackTime_def)

section \<open>The debounce timer fires on an empty password\<close>

text \<open>
  C2 (as amended). When the only live timeout is due and the password text is empty, its
  firing resets the strength to score 0 with no feedback, posts nothing to \<open>/api/check\<close>
  and leaves no timeout behind; the plain console appends the line \<open>$ PASSWORD CLEARED\<close>,
  the dashboard leaves the log as it was.
\<close>

theorem debounce_fire_empty:
  assumes "debounce_inv s" and "password s = []" and "timers s = [tm]" and "due tm \<le> t"
  shows "strength (advance v t s) = \<lparr>score = 0, feedback = []\<rparr>
       \<and> checkCalls (advance v t s) = checkCalls s
       \<and> checkPending (advance v t s) = checkPending s
       \<and> timers (advance v t s) = []
       \<and> terminalLines (advance v t s) =
           (case v of Dashboard \<Rightarrow> terminalLines s
                    | Classic \<Rightarrow> terminalLines s @ [''$ PASSWORD CLEARED''])"
proof -
  from assms(1,3) have "captured tm = password s"
    by (simp add: debounce_inv_def)
  with assms(2) have "captured tm = []" by simp
  with assms(3,4) have "advance v t s = debounce_callback v [] (s\<lparr>timers := []\<rparr>)"
    by (simp add: advance_single_due)
  then show ?thesis
    by (cases v) (simp_all add: debounce_callback_def Let_def)
qed

theorem debounce_fire_empty_witness:
  "debounce_inv (mount Classic 0) \<and> password (mount Classic 0) = []
   \<and> timers (mount Classic 0) = [\<lparr>handle = 0, due = 500, captured = []\<rparr>]
   \<and> strength (advance Classic 500 (mount Classic 0)) = \<lparr>score = 0, feedback = []\<rparr>
   \<and> checkCalls (advance Classic 500 (mount Classic 0)) = []
   \<and> terminalLines (advance Classic 500 (mount Classic 0)) = [''$ PASSWORD CLEARED'']"
proof -
  have a: "debounce_inv (mount Classic 0)"
    by (simp add: mount_Classic debounce_inv_def initial_def)
  have b: "password (mount Classic 0) = []"
    by (simp add: mount_Classic initial_def)
  have c: "timers (mount Classic 0) = [\<lparr>handle = 0, due = 500, captured = []\<rparr>]"
    by (simp add: mount_Classic)
  have d: "due \<lparr>handle = 0, due = 500, captured = []\<rparr> \<le> (500::nat)" by simp
  have e: "checkCalls (mount Classic 0) = []" "terminalLines (mount Classic 0) = []"
    by (simp_all add: mount_Classic initial_def)
  from debounce_fire_empty [OF a b c d, of Classic] a b c e show ?thesis by simp
qed

text \<open>
  On the dashboard the timeout set at mounting fires at 500 ms on the empty password and
  the log gains no line.
\<close>

theorem debounce_fire_empty_dashboard_silent:
  "timers (mount Dashboard 0) = [\<lparr>handle = 0, due = 500, captured = []\<rparr>]
   \<and> timers (advance Dashboard 500 (mount Dashboard 0)) = []
   \<and> terminalLines (advance Dashboard 500 (mount Dashboard 0)) = terminalLines (mount Dashboard 0)"
  by (simp add: mount_def initial_def debounce_effect_def setTimeout_def visibility_effect_def
        advance_def debounce_callback_def)

section \<open>Failed analysis cycles\<close>




section \<open>Score and label\<close>

text \<open>
  C4 (as amended). After a response without a truthy \<open>error\<close> that carries a
  \<open>suggestions\<close> array, the score held in the state is the score the response carries,
  unchanged; the label of a score from 0 to 4 is the entry of the table
  \<open>CRITICAL, WEAK, FAIR, STRONG, PERFECT\<close> at that index, and the label of every other
  score is \<open>CRITICAL\<close>.
\<close>

theorem score_taken_from_response:
  "(\<not> failed (Json data) \<and> resp_suggestions data \<noteq> None \<longrightarrow>
      score (strength (checkPasswordStrength v pwd (Json data) s)) = resp_score data)
   \<and> (0 \<le> sc \<and> sc \<le> 4 \<longrightarrow> currentStrength sc = strengthLabels ! nat sc)
   \<and> (sc < 0 \<or> 4 < sc \<longrightarrow> currentStrength sc = ''CRITICAL'')
   \<and> map currentStrength [0, 1, 2, 3, 4] = [''CRITICAL'', ''WEAK'', ''FAIR'', ''STRONG'', ''PERFECT'']"
proof -
  have nth: "0 \<le> sc \<Longrightarrow> sc \<le> 4 \<Longrightarrow> strengthLabels ! nat sc \<noteq> []"
  proof -
    assume "0 \<le> sc" "sc \<le> 4"
    then have "nat sc \<in> {0, 1, 2, 3, 4}" by auto
    then show ?thesis by (auto simp: strengthLabels_def)
  qed
  have 1: "\<not> failed (Json data) \<and> resp_suggestions data \<noteq> None \<longrightarrow>
      score (strength (checkPasswordStrength v pwd (Json data) s)) = resp_score data"
  proof (intro impI, elim conjE)
    assume nf: "\<not> failed (Json data)" and "resp_suggestions data \<noteq> None"
    then obtain sg where sg: "resp_suggestions data = Some sg" by auto
    show "score (strength (checkPasswordStrength v pwd (Json data) s)) = resp_score data"
      by (simp add: checkPasswordStrength_def Let_def resume_succeeded [OF nf sg])
  qed
  have 2: "0 \<le> sc \<and> sc \<le> 4 \<longrightarrow> currentStrength sc = strengthLabels ! nat sc"
    using nth by (auto simp: currentStrength_def index_at_def) (simp add: strengthLabels_def)
  have 3: "sc < 0 \<or> 4 < sc \<longrightarrow> currentStrength sc = ''CRITICAL''"
    by (auto simp: currentStrength_def index_at_def strengthLabels_def)
  have 4: "map currentStrength [0, 1, 2, 3, 4] = [''CRITICAL'', ''WEAK'', ''FAIR'', ''STRONG'', ''PERFECT'']"
    by (simp add: currentStrength_def index_at_def strengthLabels_def)
  from 1 2 3 4 show ?thesis by blast
qed

theorem score_taken_from_response_witness:
  "\<not> failed (Json \<lparr>resp_error = None, resp_score = 4, resp_strength = ''PERFECT'', resp_suggestions = Some []\<rparr>)
   \<and> resp_suggestions \<lparr>resp_error = None, resp_score = 4, resp_strength = ''PERFECT'', resp_suggestions = Some []\<rparr> \<noteq> None
   \<and> score (strength (checkPasswordStrength Dashboard ''Xk9#mQ2vLp!7''
        (Json \<lparr>resp_error = None, resp_score = 4, resp_strength = ''PERFECT'', resp_suggestions = Some []\<rparr>) initial)) = 4
   \<and> currentStrength 4 = ''PERFECT'' \<and> currentStrength 9 = ''CRITICAL'' \<and> currentStrength (- 1) = ''CRITICAL''"
proof -
  let ?d = "\<lparr>resp_error = None, resp_score = 4, resp_strength = ''PERFECT'', resp_suggestions = Some []\<rparr>"
  have a: "\<not> failed (Json ?d)" by (simp add: failed_def truthy_def)
  have n: "strengthLabels ! nat 4 = ''PERFECT''" by (simp add: strengthLabels_def)
  from score_taken_from_response [of ?d Dashboard "''Xk9#mQ2vLp!7''" initial 4]
    score_taken_from_response [of ?d Dashboard "''Xk9#mQ2vLp!7''" initial 9]
    score_taken_from_response [of ?d Dashboard "''Xk9#mQ2vLp!7''" initial "- 1"] a n
  show ?thesis by simp
qed

text \<open>A response with score 7 leaves 7 in the state.\<close>

theorem score_not_clamped:
  "score (strength (checkPasswordStrength Dashboard ''abc''
      (Json \<lparr>resp_error = None, resp_score = 7, resp_strength = ''PERFECT'', resp_suggestions = Some []\<rparr>)
      initial)) = 7"
  by (simp add: checkPasswordStrength_def checkPasswordStrength_begin_def
        checkPasswordStrength_resume_def apply_result_def append_lines_def initial_def Let_def)

section \<open>A burst of changes fires once\<close>




section \<open>Weak-pattern precheck\<close>

text \<open>
  C6 (as amended). The precheck is true exactly when some catalog entry is, up to the case
  of letters, a substring of the password. On the dashboard, where the precheck runs, a
  match appends the warning line right after the announcement, before the request is
  posted and so before anything of the response is applied, and without a match only the
  announcement is appended; the plain console runs no precheck and appends only its
  announcement, whatever the password. In both variants the request is posted whatever
  the precheck says, the response adds its lines after those, and the strength and the
  fault cell after the cycle do not depend on the password checked.
\<close>

theorem weak_precheck_advisory:
  "isWeak pwd = spec_weak_pattern pwd
   \<and> (isWeak pwd \<longrightarrow>
        terminalLines (checkPasswordStrength_begin Dashboard pwd s)
          = terminalLines s @ [line_analyzing Dashboard pwd, line_warning])
   \<and> (\<not> isWeak pwd \<longrightarrow>
        terminalLines (checkPasswordStrength_begin Dashboard pwd s)
          = terminalLines s @ [line_analyzing Dashboard pwd])
   \<and> terminalLines (checkPasswordStrength_begin Classic pwd s)
        = terminalLines s @ [line_analyzing Classic pwd]
   \<and> (\<exists>rest. terminalLines (checkPasswordStrength v pwd r s)
          = terminalLines (checkPasswordStrength_begin v pwd s) @ rest)
   \<and> checkCalls (checkPasswordStrength_begin v pwd s) = checkCalls s @ [pwd]
   \<and> checkCalls (checkPasswordStrength v pwd r s) = checkCalls s @ [pwd]
   \<and> strength (checkPasswordStrength v pwd r s) = strength (checkPasswordStrength v pwd' r s)
   \<and> fault (checkPasswordStrength v pwd r s) = fault (checkPasswordStrength v pwd' r s)"
proof -
  have 1: "isWeak pwd = spec_weak_pattern pwd" by (rule isWeak_refines)
  have 2: "isWeak pwd \<longrightarrow>
        terminalLines (checkPasswordStrength_begin Dashboard pwd s)
          = terminalLines s @ [line_analyzing Dashboard pwd, line_warning]"
    by (simp add: begin_lines)
  have 3: "\<not> isWeak pwd \<longrightarrow>
        terminalLines (checkPasswordStrength_begin Dashboard pwd s)
          = terminalLines s @ [line_analyzing Dashboard pwd]"
    by (simp add: begin_lines)
  have 4: "terminalLines (checkPasswordStrength_begin Classic pwd s)
        = terminalLines s @ [line_analyzing Classic pwd]"
    by (simp add: begin_lines)
  have 5: "\<exists>rest. terminalLines (checkPasswordStrength v pwd r s)
          = terminalLines (checkPasswordStrength_begin v pwd s) @ rest"
    by (rule cycle_lines)
  have 6: "checkCalls (checkPasswordStrength_begin v pwd s) = checkCalls s @ [pwd]" by simp
  have 7: "checkCalls (checkPasswordStrength v pwd r s) = checkCalls s @ [pwd]"
    by (simp add: checkPasswordStrength_def Let_def)
  have 8: "strength (checkPasswordStrength v pwd r s) = strength (checkPasswordStrength v pwd' r s)"
    by (rule cycle_strength)
  have 9: "fault (checkPasswordStrength v pwd r s) = fault (checkPasswordStrength v pwd' r s)"
    by (rule cycle_fault)
  show ?thesis by (intro conjI 1 2 3 4 5 6 7 8 9)
qed

theorem weak_precheck_advisory_witness:
  "isWeak ''MyPassWord123''
   \<and> spec_weak_pattern ''MyPassWord123''
   \<and> case_insensitive_substring ''password'' ''MyPassWord123''
   \<and> isWeak ''QWERTY''
   \<and> terminalLines (checkPasswordStrength_begin Dashboard ''MyPassWord123'' initial)
       = [line_analyzing Dashboard ''MyPassWord123'', line_warning]
   \<and> checkCalls (checkPasswordStrength_begin Dashboard ''MyPassWord123'' initial) = [''MyPassWord123'']
   \<and> \<not> isWeak ''Xk9#mQ2vLp!7''
   \<and> \<not> spec_weak_pattern ''Xk9#mQ2vLp!7''
   \<and> terminalLines (checkPasswordStrength_begin Dashboard ''Xk9#mQ2vLp!7'' initial)
       = [line_analyzing Dashboard ''Xk9#mQ2vLp!7'']
   \<and> strength (checkPasswordStrength Dashboard ''MyPassWord123'' (Json \<lparr>resp_error = None, resp_score = 1,
          resp_strength = ''WEAK'', resp_suggestions = Some [''longer'']\<rparr>) initial)
       = strength (checkPasswordStrength Dashboard ''Xk9#mQ2vLp!7'' (Json \<lparr>resp_error = None, resp_score = 1,
          resp_strength = ''WEAK'', resp_suggestions = Some [''longer'']\<rparr>) initial)"
proof -
  let ?r = "Json \<lparr>resp_error = None, resp_score = 1,
          resp_strength = ''WEAK'', resp_suggestions = Some [''longer'']\<rparr>"
  have a: "isWeak ''MyPassWord123''" by code_simp
  have a': "isWeak ''QWERTY''" by code_simp
  have b: "\<not> isWeak ''Xk9#mQ2vLp!7''" by code_simp
  have c: "case_insensitive_substring ''password'' ''MyPassWord123''" by code_simp
  have d: "terminalLines initial = []" "checkCalls initial = []"
    by (simp_all add: initial_def)
  note weak = weak_precheck_advisory [of "''MyPassWord123''" initial Dashboard ?r "''Xk9#mQ2vLp!7''"]
  note strong = weak_precheck_advisory [of "''Xk9#mQ2vLp!7''" initial Dashboard ?r "''MyPassWord123''"]
  have e: "spec_weak_pattern ''MyPassWord123''" using weak a by blast
  have f: "\<not> spec_weak_pattern ''Xk9#mQ2vLp!7''" using strong b by blast
  have "terminalLines (checkPasswordStrength_begin Dashboard ''MyPassWord123'' initial)
       = terminalLines initial @ [line_analyzing Dashboard ''MyPassWord123'', line_warning]"
    using weak a by blast
  then have g: "terminalLines (checkPasswordStrength_begin Dashboard ''MyPassWord123'' initial)
       = [line_analyzing Dashboard ''MyPassWord123'', line_warning]"
    by (simp add: d)
  have "checkCalls (checkPasswordStrength_begin Dashboard ''MyPassWord123'' initial)
       = checkCalls initial @ [''MyPassWord123'']"
    using weak by blast
  then have h: "checkCalls (checkPasswordStrength_begin Dashboard ''MyPassWord123'' initial) = [''MyPassWord123'']"
    by (simp add: d)
  have "terminalLines (checkPasswordStrength_begin Dashboard ''Xk9#mQ2vLp!7'' initial)
       = terminalLines initial @ [line_analyzing Dashboard ''Xk9#mQ2vLp!7'']"
    using strong b by blast
  then have i: "terminalLines (checkPasswordStrength_begin Dashboard ''Xk9#mQ2vLp!7'' initial)
       = [line_analyzing Dashboard ''Xk9#mQ2vLp!7'']"
    by (simp add: d)
  have j: "strength (checkPasswordStrength Dashboard ''MyPassWord123'' ?r initial)
       = strength (checkPasswordStrength Dashboard ''Xk9#mQ2vLp!7'' ?r initial)"
    using weak by blast
  show ?thesis by (intro conjI a e c a' g h b f i j)
qed

text \<open>
  On the plain console the password \<open>password123\<close>, which the catalog matches, goes
  through a whole analysis cycle without any warning line.
\<close>

theorem weak_precheck_console_silent:
  "isWeak ''password123''
   \<and> terminalLines (checkPasswordStrength_begin Classic ''password123'' initial)
       = [line_analyzing Classic ''password123'']
   \<and> line_warning \<notin> set (terminalLines (checkPasswordStrength Classic ''password123''
        (Json \<lparr>resp_error = None, resp_score = 0, resp_strength = ''CRITICAL'',
           resp_suggestions = Some [''Avoid common passwords'']\<rparr>) initial))"
proof -
  have 1: "isWeak ''password123''" by code_simp
  have 2: "terminalLines (checkPasswordStrength_begin Classic ''password123'' initial)
       = [line_analyzing Classic ''password123'']"
    by (simp add: begin_lines initial_def)
  have 3: "line_warning \<notin> set (terminalLines (checkPasswordStrength Classic ''password123''
        (Json \<lparr>resp_error = None, resp_score = 0, resp_strength = ''CRITICAL'',
           resp_suggestions = Some [''Avoid common passwords'']\<rparr>) initial))"
    by (simp add: checkPasswordStrength_def checkPasswordStrength_begin_def
        checkPasswordStrength_resume_def apply_result_def append_lines_def initial_def Let_def
        line_warning_def line_analyzing_def lines_complete_def glyph_warning_def glyph_arrow_def)
  show ?thesis by (intro conjI 1 2 3)
qed

section \<open>Generation\<close>

text \<open>
  C7. When the generation response decodes without a truthy \<open>error\<close> and carries the
  password \<open>P\<close>, both the generated value and the password text become \<open>P\<close>, and the
  timeouts and the effect's cleanup are exactly those that typing \<open>P\<close> into the input at
  that moment would leave: when \<open>P\<close> differs from the text before, the one live timeout
  is due 500 ms later and captured \<open>P\<close>. On a truthy \<open>error\<close>, and on a rejected
  request, one failure line is appended and nothing else in the state changes.
\<close>

theorem generate_sets_generated_and_password:
  "(\<not> truthy (gen_error data) \<longrightarrow>
      generated (generateSecurePassword_resume v now (Json data) s) = gen_password data
    \<and> password (generateSecurePassword_resume v now (Json data) s) = gen_password data
    \<and> timers (generateSecurePassword_resume v now (Json data) s)
        = timers (handle_event v now (Change (gen_password data)) s)
    \<and> cleanup (generateSecurePassword_resume v now (Json data) s)
        = cleanup (handle_event v now (Change (gen_password data)) s)
    \<and> (debounce_inv s \<and> gen_password data \<noteq> password s \<longrightarrow>
         timers (generateSecurePassword_resume v now (Json data) s)
           = [\<lparr>handle = nextTimer s, due = now + 500, captured = gen_password data\<rparr>]))
   \<and> (truthy (gen_error data) \<longrightarrow>
        generateSecurePassword_resume v now (Json data) s
          = append_lines [line_generation_failed v (case gen_error data of None \<Rightarrow> [] | Some e \<Rightarrow> e)] s)
   \<and> generateSecurePassword_resume v now (Rejected m) s
        = append_lines [line_generation_failed v m] s"
proof -
  let ?P = "gen_password data"
  let ?s' = "append_lines (lines_generated v ?P) (s\<lparr>generated := ?P\<rparr>)"
  have t: "timers (setPassword v now ?P ?s') = timers (setPassword v now ?P s)"
    by (rule setPassword_timers_frame) simp_all
  have c: "cleanup (setPassword v now ?P ?s') = cleanup (setPassword v now ?P s)"
    by (rule setPassword_cleanup_frame) simp_all
  have i: "debounce_inv s \<and> ?P \<noteq> password s \<longrightarrow>
      timers (setPassword v now ?P s) = [\<lparr>handle = nextTimer s, due = now + 500, captured = ?P\<rparr>]"
    by (simp add: setPassword_timers)
  have ok: "\<not> truthy (gen_error data) \<longrightarrow>
      generated (generateSecurePassword_resume v now (Json data) s) = ?P
    \<and> password (generateSecurePassword_resume v now (Json data) s) = ?P
    \<and> timers (generateSecurePassword_resume v now (Json data) s)
        = timers (handle_event v now (Change ?P) s)
    \<and> cleanup (generateSecurePassword_resume v now (Json data) s)
        = cleanup (handle_event v now (Change ?P) s)
    \<and> (debounce_inv s \<and> ?P \<noteq> password s \<longrightarrow>
         timers (generateSecurePassword_resume v now (Json data) s)
           = [\<lparr>handle = nextTimer s, due = now + 500, captured = ?P\<rparr>])"
    using t c i by (simp add: generate_resume_succeeded handle_event_def)
  show ?thesis
    using ok generate_resume_failed [of data v now s] generate_resume_rejected [of v now m s]
    by blast
qed

theorem generate_sets_generated_and_password_witness:
  "\<not> truthy (gen_error \<lparr>gen_error = None, gen_password = ''Xk9#mQ2vLp!7''\<rparr>)
   \<and> debounce_inv (mount Dashboard 0)
   \<and> generated (generateSecurePassword_resume Dashboard 40
        (Json \<lparr>gen_error = None, gen_password = ''Xk9#mQ2vLp!7''\<rparr>) (mount Dashboard 0)) = ''Xk9#mQ2vLp!7''
   \<and> password (generateSecurePassword_resume Dashboard 40
        (Json \<lparr>gen_error = None, gen_password = ''Xk9#mQ2vLp!7''\<rparr>) (mount Dashboard 0)) = ''Xk9#mQ2vLp!7''
   \<and> timers (generateSecurePassword_resume Dashboard 40
        (Json \<lparr>gen_error = None, gen_password = ''Xk9#mQ2vLp!7''\<rparr>) (mount Dashboard 0))
       = [\<lparr>handle = 1, due = 540, captured = ''Xk9#mQ2vLp!7''\<rparr>]
   \<and> truthy (gen_error \<lparr>gen_error = Some ''busy'', gen_password = []\<rparr>)
   \<and> generateSecurePassword_resume Dashboard 40
        (Json \<lparr>gen_error = Some ''busy'', gen_password = []\<rparr>) (mount Dashboard 0)
       = append_lines [glyph_cross @ '' GENERATION FAILED: busy''] (mount Dashboard 0)"
proof -
  let ?d = "\<lparr>gen_error = None, gen_password = ''Xk9#mQ2vLp!7''\<rparr>"
  let ?e = "\<lparr>gen_error = Some ''busy'', gen_password = []\<rparr>"
  have a: "\<not> truthy (gen_error ?d)" by (simp add: truthy_def)
  have b: "truthy (gen_error ?e)" by (simp add: truthy_def)
  have c: "debounce_inv (mount Dashboard 0)"
    by (simp add: mount_Dashboard debounce_inv_def initial_def)
  have d: "gen_password ?d \<noteq> password (mount Dashboard 0)"
    by (simp add: mount_Dashboard initial_def)
  have e: "nextTimer (mount Dashboard 0) = 1" by (simp add: mount_Dashboard)
  have f: "line_generation_failed Dashboard ''busy'' = glyph_cross @ '' GENERATION FAILED: busy''"
    by (simp add: line_generation_failed_def)
  note ok = generate_sets_generated_and_password [of ?d Dashboard 40 "mount Dashboard 0" "[]"]
  note ko = generate_sets_generated_and_password [of ?e Dashboard 40 "mount Dashboard 0" "[]"]
  have g: "generated (generateSecurePassword_resume Dashboard 40 (Json ?d) (mount Dashboard 0)) = ''Xk9#mQ2vLp!7''"
    using ok a by simp
  have p: "password (generateSecurePassword_resume Dashboard 40 (Json ?d) (mount Dashboard 0)) = ''Xk9#mQ2vLp!7''"
    using ok a by simp
  have "timers (generateSecurePassword_resume Dashboard 40 (Json ?d) (mount Dashboard 0))
       = [\<lparr>handle = nextTimer (mount Dashboard 0), due = 40 + 500, captured = gen_password ?d\<rparr>]"
    using ok a c d by blast
  then have t: "timers (generateSecurePassword_resume Dashboard 40 (Json ?d) (mount Dashboard 0))
       = [\<lparr>handle = 1, due = 540, captured = ''Xk9#mQ2vLp!7''\<rparr>]"
    by (simp add: e)
  have k: "generateSecurePassword_resume Dashboard 40 (Json ?e) (mount Dashboard 0)
       = append_lines [glyph_cross @ '' GENERATION FAILED: busy''] (mount Dashboard 0)"
    using ko b f by simp
  from a b c g p t k show ?thesis by blast
qed

section \<open>Bounded feeds\<close>

text \<open>
  C8. In every state a run reaches from mounting, the attack feed holds at most 10 events
  and the live-check feed at most 5. While the component is mounted each feed is the
  events created so far, newest first, cut after the capacity; one insertion puts the new
  event in front of the first 9 (respectively 4) events of the previous feed in their
  order, so that only the oldest event of a full feed is dropped.
\<close>

theorem feeds_bounded_newest_first:
  "length (attackData (run v es (mount v t0))) \<le> 10
   \<and> length (liveChecks (run v es (mount v t0))) \<le> 5
   \<and> (fault (run Dashboard es (mount Dashboard t0)) = None \<longrightarrow>
        attackData (run Dashboard es (mount Dashboard t0)) = take 10 (rev (attacks_created es))
      \<and> liveChecks (run Dashboard es (mount Dashboard t0)) = take 5 (rev (checks_created es)))
   \<and> attackData_push a prev = a # take 9 prev
   \<and> liveChecks_push c prev' = c # take 4 prev'
   \<and> (length prev < 10 \<longrightarrow> attackData_push a prev = a # prev)
   \<and> (length prev = 10 \<longrightarrow> attackData_push a prev = a # butlast prev)
   \<and> (length prev' < 5 \<longrightarrow> liveChecks_push c prev' = c # prev')
   \<and> (length prev' = 5 \<longrightarrow> liveChecks_push c prev' = c # butlast prev')"
proof -
  have 1: "length (attackData (run v es (mount v t0))) \<le> 10"
    by (rule run_attackData_length) (simp add: mount_feeds)
  have 2: "length (liveChecks (run v es (mount v t0))) \<le> 5"
    by (rule run_liveChecks_length) (simp add: mount_feeds)
  have 3: "fault (run Dashboard es (mount Dashboard t0)) = None \<longrightarrow>
        attackData (run Dashboard es (mount Dashboard t0)) = take 10 (rev (attacks_created es))"
    using run_attackData_created [of es "mount Dashboard t0"] by (auto simp: mount_feeds)
  have 4: "fault (run Dashboard es (mount Dashboard t0)) = None \<longrightarrow>
        liveChecks (run Dashboard es (mount Dashboard t0)) = take 5 (rev (checks_created es))"
    using run_liveChecks_created [of es "mount Dashboard t0"] by (auto simp: mount_feeds)
  have 5: "attackData_push a prev = a # take 9 prev"
    by (simp add: attackData_push_def)
  have 6: "liveChecks_push c prev' = c # take 4 prev'"
    by (simp add: liveChecks_push_def)
  have 7: "length prev < 10 \<longrightarrow> attackData_push a prev = a # prev"
    "length prev = 10 \<longrightarrow> attackData_push a prev = a # butlast prev"
    by (simp_all add: attackData_push_def butlast_conv_take)
  have 8: "length prev' < 5 \<longrightarrow> liveChecks_push c prev' = c # prev'"
    "length prev' = 5 \<longrightarrow> liveChecks_push c prev' = c # butlast prev'"
    by (simp_all add: liveChecks_push_def butlast_conv_take)
  from 3 4 have 34: "fault (run Dashboard es (mount Dashboard t0)) = None \<longrightarrow>
        attackData (run Dashboard es (mount Dashboard t0)) = take 10 (rev (attacks_created es))
      \<and> liveChecks (run Dashboard es (mount Dashboard t0)) = take 5 (rev (checks_created es))"
    by blast
  show ?thesis by (intro conjI 1 2 34 5 6 7 8)
qed

theorem feeds_bounded_newest_first_witness:
  "fault (run Dashboard
      [(2000, AttackTick (\<lambda>i. 1 / 2) ''a''), (4000, AttackTick (\<lambda>i. 1 / 2) ''b''),
       (4000, LiveCheckTick (\<lambda>i. 1 / 2) ''b''),
       (6000, AttackTick (\<lambda>i. 1 / 2) ''c''), (8000, AttackTick (\<lambda>i. 1 / 2) ''d''),
       (10000, AttackTick (\<lambda>i. 1 / 2) ''e''), (12000, AttackTick (\<lambda>i. 1 / 2) ''f''),
       (14000, AttackTick (\<lambda>i. 1 / 2) ''g''), (16000, AttackTick (\<lambda>i. 1 / 2) ''h''),
       (18000, AttackTick (\<lambda>i. 1 / 2) ''i''), (20000, AttackTick (\<lambda>i. 1 / 2) ''j''),
       (22000, AttackTick (\<lambda>i. 1 / 2) ''k'')] (mount Dashboard 0)) = None
   \<and> map atk_timestamp (attackData (run Dashboard
      [(2000, AttackTick (\<lambda>i. 1 / 2) ''a''), (4000, AttackTick (\<lambda>i. 1 / 2) ''b''),
       (4000, LiveCheckTick (\<lambda>i. 1 / 2) ''b''),
       (6000, AttackTick (\<lambda>i. 1 / 2) ''c''), (8000, AttackTick (\<lambda>i. 1 / 2) ''d''),
       (10000, AttackTick (\<lambda>i. 1 / 2) ''e''), (12000, AttackTick (\<lambda>i. 1 / 2) ''f''),
       (14000, AttackTick (\<lambda>i. 1 / 2) ''g''), (16000, AttackTick (\<lambda>i. 1 / 2) ''h''),
       (18000, AttackTick (\<lambda>i. 1 / 2) ''i''), (20000, AttackTick (\<lambda>i. 1 / 2) ''j''),
       (22000, AttackTick (\<lambda>i. 1 / 2) ''k'')] (mount Dashboard 0)))
     = [''k'', ''j'', ''i'', ''h'', ''g'', ''f'', ''e'', ''d'', ''c'', ''b'']
   \<and> map chk_id (liveChecks (run Dashboard
      [(2000, AttackTick (\<lambda>i. 1 / 2) ''a''), (4000, AttackTick (\<lambda>i. 1 / 2) ''b''),
       (4000, LiveCheckTick (\<lambda>i. 1 / 2) ''b''),
       (6000, AttackTick (\<lambda>i. 1 / 2) ''c''), (8000, AttackTick (\<lambda>i. 1 / 2) ''d''),
       (10000, AttackTick (\<lambda>i. 1 / 2) ''e''), (12000, AttackTick (\<lambda>i. 1 / 2) ''f''),
       (14000, AttackTick (\<lambda>i. 1 / 2) ''g''), (16000, AttackTick (\<lambda>i. 1 / 2) ''h''),
       (18000, AttackTick (\<lambda>i. 1 / 2) ''i''), (20000, AttackTick (\<lambda>i. 1 / 2) ''j''),
       (22000, AttackTick (\<lambda>i. 1 / 2) ''k'')] (mount Dashboard 0))) = [4000]"
proof -
  let ?es = "[(2000::nat, AttackTick (\<lambda>i. 1 / 2) ''a''), (4000, AttackTick (\<lambda>i. 1 / 2) ''b''),
       (4000, LiveCheckTick (\<lambda>i. 1 / 2) ''b''),
       (6000, AttackTick (\<lambda>i. 1 / 2) ''c''), (8000, AttackTick (\<lambda>i. 1 / 2) ''d''),
       (10000, AttackTick (\<lambda>i. 1 / 2) ''e''), (12000, AttackTick (\<lambda>i. 1 / 2) ''f''),
       (14000, AttackTick (\<lambda>i. 1 / 2) ''g''), (16000, AttackTick (\<lambda>i. 1 / 2) ''h''),
       (18000, AttackTick (\<lambda>i. 1 / 2) ''i''), (20000, AttackTick (\<lambda>i. 1 / 2) ''j''),
       (22000, AttackTick (\<lambda>i. 1 / 2) ''k'')]"
  have f: "fault (run Dashboard ?es (mount Dashboard 0)) = None"
    by (simp add: step_def handle_event_def mount_def initial_def)
  note th = feeds_bounded_newest_first [of Dashboard ?es 0]
  have a: "attackData (run Dashboard ?es (mount Dashboard 0)) = take 10 (rev (attacks_created ?es))"
    using th f by blast
  have c: "liveChecks (run Dashboard ?es (mount Dashboard 0)) = take 5 (rev (checks_created ?es))"
    using th f by blast
  have a': "map atk_timestamp (attackData (run Dashboard ?es (mount Dashboard 0)))
     = [''k'', ''j'', ''i'', ''h'', ''g'', ''f'', ''e'', ''d'', ''c'', ''b'']"
    unfolding a by (simp add: newAttack_def)
  have c': "map chk_id (liveChecks (run Dashboard ?es (mount Dashboard 0))) = [4000]"
    unfolding c by (simp add: newCheck_def)
  show ?thesis by (intro conjI f a' c')
qed

section \<open>Global statistics\<close>

text \<open>
  C9. With the four draws of a tick in the range of \<open>Math.random()\<close>, the tick raises
  \<open>attacksToday\<close> by 0 to 999 and \<open>passwordsCompromised\<close> by 0 to 49, and sets
  \<open>activeThreats\<close> within 1000 to 1499 and \<open>weakPasswords\<close> within 5000000 to 5999999,
  the latter two whatever the previous statistics were. Along every run whose ticks draw
  in range the two counters never decrease; the two resampled fields go down from one
  tick to the next for some draws and up for others.
\<close>

theorem stats_accumulate_or_resample:
  "(unit_draws 4 rnd \<longrightarrow>
      attacksToday prev \<le> attacksToday (globalStats_tick rnd prev)
    \<and> attacksToday (globalStats_tick rnd prev) \<le> attacksToday prev + 999
    \<and> passwordsCompromised prev \<le> passwordsCompromised (globalStats_tick rnd prev)
    \<and> passwordsCompromised (globalStats_tick rnd prev) \<le> passwordsCompromised prev + 49
    \<and> 1000 \<le> activeThreats (globalStats_tick rnd prev)
    \<and> activeThreats (globalStats_tick rnd prev) \<le> 1499
    \<and> 5000000 \<le> weakPasswords (globalStats_tick rnd prev)
    \<and> weakPasswords (globalStats_tick rnd prev) \<le> 5999999)
   \<and> activeThreats (globalStats_tick rnd prev) = activeThreats (globalStats_tick rnd prev')
   \<and> weakPasswords (globalStats_tick rnd prev) = weakPasswords (globalStats_tick rnd prev')
   \<and> (fault s = None \<longrightarrow>
        globalStats (step Dashboard (t, StatsTick rnd) s) = globalStats_tick rnd (globalStats s))
   \<and> (list_all stats_draws_ok es \<longrightarrow>
        attacksToday (globalStats s) \<le> attacksToday (globalStats (run v es s))
      \<and> passwordsCompromised (globalStats s) \<le> passwordsCompromised (globalStats (run v es s)))
   \<and> activeThreats (globalStats_tick (\<lambda>i. 0) (globalStats_tick (\<lambda>i. 1 / 2) prev))
        < activeThreats (globalStats_tick (\<lambda>i. 1 / 2) prev)
   \<and> activeThreats (globalStats_tick (\<lambda>i. 1 / 2) (globalStats_tick (\<lambda>i. 0) prev))
        > activeThreats (globalStats_tick (\<lambda>i. 0) prev)
   \<and> weakPasswords (globalStats_tick (\<lambda>i. 0) (globalStats_tick (\<lambda>i. 1 / 2) prev))
        < weakPasswords (globalStats_tick (\<lambda>i. 1 / 2) prev)
   \<and> weakPasswords (globalStats_tick (\<lambda>i. 1 / 2) (globalStats_tick (\<lambda>i. 0) prev))
        > weakPasswords (globalStats_tick (\<lambda>i. 0) prev)"
proof -
  have 1: "unit_draws 4 rnd \<longrightarrow>
      attacksToday prev \<le> attacksToday (globalStats_tick rnd prev)
    \<and> attacksToday (globalStats_tick rnd prev) \<le> attacksToday prev + 999
    \<and> passwordsCompromised prev \<le> passwordsCompromised (globalStats_tick rnd prev)
    \<and> passwordsCompromised (globalStats_tick rnd prev) \<le> passwordsCompromised prev + 49
    \<and> 1000 \<le> activeThreats (globalStats_tick rnd prev)
    \<and> activeThreats (globalStats_tick rnd prev) \<le> 1499
    \<and> 5000000 \<le> weakPasswords (globalStats_tick rnd prev)
    \<and> weakPasswords (globalStats_tick rnd prev) \<le> 5999999"
    using globalStats_tick_ranges [of rnd prev] by blast
  have 2: "activeThreats (globalStats_tick rnd prev) = activeThreats (globalStats_tick rnd prev')"
    "weakPasswords (globalStats_tick rnd prev) = weakPasswords (globalStats_tick rnd prev')"
    by (simp_all add: globalStats_tick_def)
  have 3: "fault s = None \<longrightarrow>
        globalStats (step Dashboard (t, StatsTick rnd) s) = globalStats_tick rnd (globalStats s)"
    by (simp add: step_def handle_event_globalStats)
  have 4: "list_all stats_draws_ok es \<longrightarrow>
        attacksToday (globalStats s) \<le> attacksToday (globalStats (run v es s))
      \<and> passwordsCompromised (globalStats s) \<le> passwordsCompromised (globalStats (run v es s))"
    using run_globalStats_mono [of es s v] by blast
  have 5: "activeThreats (globalStats_tick (\<lambda>i. 0) (globalStats_tick (\<lambda>i. 1 / 2) prev))
        < activeThreats (globalStats_tick (\<lambda>i. 1 / 2) prev)"
    "activeThreats (globalStats_tick (\<lambda>i. 1 / 2) (globalStats_tick (\<lambda>i. 0) prev))
        > activeThreats (globalStats_tick (\<lambda>i. 0) prev)"
    "weakPasswords (globalStats_tick (\<lambda>i. 0) (globalStats_tick (\<lambda>i. 1 / 2) prev))
        < weakPasswords (globalStats_tick (\<lambda>i. 1 / 2) prev)"
    "weakPasswords (globalStats_tick (\<lambda>i. 1 / 2) (globalStats_tick (\<lambda>i. 0) prev))
        > weakPasswords (globalStats_tick (\<lambda>i. 0) prev)"
    by (simp_all add: globalStats_tick_def random_below_def)
  show ?thesis by (intro conjI 1 2 3 4 5)
qed

theorem stats_accumulate_or_resample_witness:
  "unit_draws 4 (\<lambda>i. 1 / 2)
   \<and> list_all stats_draws_ok [(3000, StatsTick (\<lambda>i. 1 / 2)), (6000, StatsTick (\<lambda>i. 0))]
   \<and> fault (mount Dashboard 0) = None
   \<and> globalStats (step Dashboard (3000, StatsTick (\<lambda>i. 1 / 2)) (mount Dashboard 0))
       = \<lparr>attacksToday = 500, passwordsCompromised = 25, activeThreats = 1250, weakPasswords = 5500000\<rparr>
   \<and> 0 \<le> attacksToday (globalStats (run Dashboard
         [(3000, StatsTick (\<lambda>i. 1 / 2)), (6000, StatsTick (\<lambda>i. 0))] (mount Dashboard 0)))"
proof -
  let ?h = "\<lambda>i::nat. 1 / 2 :: real"
  let ?es = "[(3000::nat, StatsTick ?h), (6000, StatsTick (\<lambda>i. 0))]"
  have a: "unit_draws 4 ?h" by (simp add: unit_draws_def upt_rec)
  have a0: "unit_draws 4 (\<lambda>i. 0)" by (simp add: unit_draws_def upt_rec)
  have b: "list_all stats_draws_ok ?es" using a a0 by (simp add: stats_draws_ok_def)
  have c: "fault (mount Dashboard 0) = None" by (simp add: mount_Dashboard initial_def)
  have g: "globalStats (mount Dashboard 0)
      = \<lparr>attacksToday = 0, passwordsCompromised = 0, activeThreats = 0, weakPasswords = 0\<rparr>"
    by (simp add: mount_Dashboard initial_def)
  note th = stats_accumulate_or_resample [of ?h "globalStats (mount Dashboard 0)" "globalStats (mount Dashboard 0)"
      "mount Dashboard 0" 3000 ?es Dashboard]
  have d: "globalStats (step Dashboard (3000, StatsTick ?h) (mount Dashboard 0))
       = globalStats_tick ?h (globalStats (mount Dashboard 0))"
    using th c by blast
  have d': "globalStats (step Dashboard (3000, StatsTick ?h) (mount Dashboard 0))
       = \<lparr>attacksToday = 500, passwordsCompromised = 25, activeThreats = 1250, weakPasswords = 5500000\<rparr>"
    unfolding d g by (simp add: globalStats_tick_def random_below_def)
  have "attacksToday (globalStats (mount Dashboard 0)) \<le> attacksToday (globalStats (run Dashboard ?es (mount Dashboard 0)))"
    using th b by blast
  then have e: "0 \<le> attacksToday (globalStats (run Dashboard ?es (mount Dashboard 0)))"
    by (simp add: g)
  show ?thesis by (intro conjI a b c d' e)
qed

section \<open>The generated value is framed\<close>

text \<open>
  C10. An event other than a generation response without a truthy \<open>error\<close> leaves the
  generated value as it was: input, clearing, timer firings, analysis responses, failed
  generations and the simulators' ticks. Hence after a successful generation of \<open>P\<close>,
  followed by any run without another successful generation, the generated value is
  still \<open>P\<close>, whatever the password text has become.
\<close>

theorem generated_only_by_generate:
  "(\<not> sets_generated (snd te) \<longrightarrow> generated (step v te s) = generated s)
   \<and> (list_all (\<lambda>te. \<not> sets_generated (snd te)) es \<longrightarrow> generated (run v es s) = generated s)
   \<and> (\<not> truthy (gen_error data) \<and> list_all (\<lambda>te. \<not> sets_generated (snd te)) es \<longrightarrow>
        generated (run v es (generateSecurePassword_resume v now (Json data) s)) = gen_password data)"
proof -
  have "\<not> truthy (gen_error data) \<Longrightarrow>
      generated (generateSecurePassword_resume v now (Json data) s) = gen_password data"
    by (simp add: generate_resume_succeeded)
  then show ?thesis
    using step_generated [of te v s] run_generated [of es v]
    by auto
qed

theorem generated_only_by_generate_witness:
  "\<not> truthy (gen_error \<lparr>gen_error = None, gen_password = ''Xk9#mQ2vLp!7''\<rparr>)
   \<and> list_all (\<lambda>te. \<not> sets_generated (snd te))
        [(100::nat, Change ''abc''), (700, Idle),
         (800, CheckResponse 0 (Json \<lparr>resp_error = None, resp_score = 1, resp_strength = ''WEAK'',
             resp_suggestions = Some []\<rparr>)), (900, Change [])]
   \<and> generated (run Dashboard [(100, Change ''abc''), (700, Idle),
          (800, CheckResponse 0 (Json \<lparr>resp_error = None, resp_score = 1, resp_strength = ''WEAK'',
             resp_suggestions = Some []\<rparr>)), (900, Change [])]
        (generateSecurePassword_resume Dashboard 40
          (Json \<lparr>gen_error = None, gen_password = ''Xk9#mQ2vLp!7''\<rparr>) (mount Dashboard 0))) = ''Xk9#mQ2vLp!7''
   \<and> password (run Dashboard [(100, Change ''abc''), (700, Idle),
          (800, CheckResponse 0 (Json \<lparr>resp_error = None, resp_score = 1, resp_strength = ''WEAK'',
             resp_suggestions = Some []\<rparr>)), (900, Change [])]
        (generateSecurePassword_resume Dashboard 40
          (Json \<lparr>gen_error = None, gen_password = ''Xk9#mQ2vLp!7''\<rparr>) (mount Dashboard 0))) = []"
proof -
  let ?d = "\<lparr>gen_error = None, gen_password = ''Xk9#mQ2vLp!7''\<rparr>"
  let ?es = "[(100, Change ''abc''), (700, Idle),
         (800, CheckResponse 0 (Json \<lparr>resp_error = None, resp_score = 1, resp_strength = ''WEAK'',
             resp_suggestions = Some []\<rparr>)), (900::nat, Change [])]"
  have a: "\<not> truthy (gen_error ?d)" by (simp add: truthy_def)
  have b: "list_all (\<lambda>te. \<not> sets_generated (snd te)) ?es"
    by (simp add: sets_generated_def)
  have c: "password (run Dashboard ?es
        (generateSecurePassword_resume Dashboard 40 (Json ?d) (mount Dashboard 0))) = []"
    by code_simp
  have "generated (run Dashboard ?es
        (generateSecurePassword_resume Dashboard 40 (Json ?d) (mount Dashboard 0))) = gen_password ?d"
    using generated_only_by_generate [of "(0, Idle)" Dashboard "mount Dashboard 0" ?es ?d 40] a b
    by blast
  then have d: "generated (run Dashboard ?es
        (generateSecurePassword_resume Dashboard 40 (Json ?d) (mount Dashboard 0))) = ''Xk9#mQ2vLp!7''"
    by simp
  show ?thesis by (intro conjI a b c d)
qed

end
